theory Spec2Isabelle
  imports Main
begin

section \<open>Strings and characters\<close>

text \<open>
  A JavaScript string is modelled as a \<open>string\<close>: each \<open>char\<close> stands for one UTF-16 code
  unit below 256. URLs and the meta values looked at here are ASCII in practice.
\<close>

definition code :: "char \<Rightarrow> nat" where
  "code c = of_char c"

text \<open>
  \<open>Canonicalize\<close> of a regular expression with the \<open>i\<close> flag and without the \<open>u\<close> flag:
  the code unit of \<open>toUpperCase\<close>, which for code units below 256 is the upper-case letter
  of \<open>a-z\<close> and of the Latin-1 letters, U+039C for the micro sign and U+0178 for
  \<open>y\<close> with diaeresis; the sharp s keeps its value, since it upper-cases to two units.
\<close>

definition Canonicalize :: "char \<Rightarrow> nat" where
  "Canonicalize c = (let n = code c in
     if 97 \<le> n \<and> n \<le> 122 then n - 32
     else if 224 \<le> n \<and> n \<le> 254 \<and> n \<noteq> 247 then n - 32
     else if n = 181 then 924
     else if n = 255 then 376
     else n)"

text \<open>\<open>String.prototype.startsWith\<close>.\<close>

fun startsWith :: "string \<Rightarrow> string \<Rightarrow> bool" where
  "startsWith s [] = True"
| "startsWith [] (p # ps) = False"
| "startsWith (c # cs) (p # ps) = (c = p \<and> startsWith cs ps)"

section \<open>Regular expressions of the pattern table\<close>

text \<open>
  The constructs the patterns of \<open>PLATFORM_PATTERNS\<close> use: one character of a class, the
  empty pattern, sequence, alternation \<open>a|b\<close>, the greedy \<open>a?\<close>, the greedy \<open>c*\<close> over a
  class, the capturing group and the anchor \<open>^\<close>. Every quantified subpattern of the
  table consumes at least one character, so the rule of ECMAScript that rejects an empty
  iteration never applies.
\<close>

datatype re =
    Cls "char \<Rightarrow> bool"
  | Eps
  | Sq re re
  | Alt re re
  | Opt re
  | Star "char \<Rightarrow> bool"
  | Grp re
  | Bol

text \<open>
  A match state: the index reached in the input, the input that is left, and the value of
  capture group 1 (\<open>None\<close> is \<open>undefined\<close>). Every pattern of the table has exactly one
  capturing group.
\<close>

type_synonym mstate = "nat \<times> string \<times> string option"

text \<open>The states a greedy \<open>c*\<close> can stop in, the longest run first.\<close>

fun star_states :: "(char \<Rightarrow> bool) \<Rightarrow> nat \<Rightarrow> string \<Rightarrow> string option \<Rightarrow> mstate list" where
  "star_states c i [] g = [(i, [], g)]"
| "star_states c i (x # xs) g =
     (if c x then star_states c (Suc i) xs g @ [(i, x # xs, g)] else [(i, x # xs, g)])"

text \<open>
  The backtracking matcher: all the states a pattern can end in from a state, in the order
  in which backtracking tries them. The first element is the match ECMAScript reports.
\<close>

fun rmatch :: "re \<Rightarrow> mstate \<Rightarrow> mstate list" where
  "rmatch (Cls c) (i, s, g) =
     (case s of [] \<Rightarrow> [] | x # xs \<Rightarrow> if c x then [(Suc i, xs, g)] else [])"
| "rmatch Eps st = [st]"
| "rmatch (Sq a b) st = concat (map (rmatch b) (rmatch a st))"
| "rmatch (Alt a b) st = rmatch a st @ rmatch b st"
| "rmatch (Opt a) st = rmatch a st @ [st]"
| "rmatch (Star c) (i, s, g) = star_states c i s g"
| "rmatch (Grp a) (i, s, g) =
     map (\<lambda>(j, t, h). (j, t, Some (take (j - i) s))) (rmatch a (i, s, g))"
| "rmatch Bol (i, s, g) = (if i = 0 then [(i, s, g)] else [])"

text \<open>
  \<open>RegExp.prototype.exec\<close> of a pattern without the \<open>g\<close> flag: the match is tried at index
  0, then 1, and so on up to the end of the input; the captures start undefined at every
  index.
\<close>

fun exec_from :: "re \<Rightarrow> nat \<Rightarrow> string \<Rightarrow> mstate option" where
  "exec_from r i [] = (case rmatch r (i, [], None) of [] \<Rightarrow> None | st # _ \<Rightarrow> Some st)"
| "exec_from r i (x # xs) =
     (case rmatch r (i, x # xs, None) of [] \<Rightarrow> exec_from r (Suc i) xs | st # _ \<Rightarrow> Some st)"

definition exec :: "re \<Rightarrow> string \<Rightarrow> mstate option" where
  "exec r u = exec_from r 0 u"

text \<open>\<open>pattern.test(url)\<close>.\<close>

definition re_test :: "re \<Rightarrow> string \<Rightarrow> bool" where
  "re_test r u = (exec r u \<noteq> None)"

text \<open>
  \<open>url.match(pattern)\<close>, read at index 1: \<open>None\<close> is \<open>null\<close> (no match), \<open>Some None\<close> a
  match whose group 1 is \<open>undefined\<close>, \<open>Some (Some w)\<close> a match whose group 1 is \<open>w\<close>.
\<close>

definition match1 :: "re \<Rightarrow> string \<Rightarrow> string option option" where
  "match1 r u = (case exec r u of None \<Rightarrow> None | Some (j, t, g) \<Rightarrow> Some g)"

subsection \<open>Writing patterns\<close>

text \<open>A literal character under the \<open>i\<close> flag.\<close>

definition chr :: "char \<Rightarrow> re" where
  "chr c = Cls (\<lambda>x. Canonicalize x = Canonicalize c)"

fun seq :: "re list \<Rightarrow> re" where
  "seq [] = Eps"
| "seq [r] = r"
| "seq (r # rs) = Sq r (seq rs)"

text \<open>A literal string under the \<open>i\<close> flag.\<close>

definition str :: "string \<Rightarrow> re" where
  "str s = seq (map chr s)"

text \<open>\<open>c+\<close> and \<open>c{n}\<close> over a class.\<close>

definition Plus :: "(char \<Rightarrow> bool) \<Rightarrow> re" where
  "Plus c = Sq (Cls c) (Star c)"

fun repeat_n :: "nat \<Rightarrow> re \<Rightarrow> re" where
  "repeat_n 0 r = Eps"
| "repeat_n (Suc n) r = Sq r (repeat_n n r)"

text \<open>
  The classes of the table. Each is closed under \<open>Canonicalize\<close> on the code units below
  256 (lemmas \<open>digit_closed\<close> to \<open>query_sep_closed\<close> below), so membership under the \<open>i\<close>
  flag is membership.
  \<open>\s\<close> is white space and the line terminators: of the code units below 256, the
  units 9 to 13, 32 and 160. The dot is every character but a line terminator.
\<close>

definition is_space :: "char \<Rightarrow> bool" where
  "is_space x = (let n = code x in (9 \<le> n \<and> n \<le> 13) \<or> n = 32 \<or> n = 160)"

definition dot :: "char \<Rightarrow> bool" where
  "dot x = (code x \<noteq> 10 \<and> code x \<noteq> 13)"

definition not_slash :: "char \<Rightarrow> bool" where
  "not_slash x = (x \<noteq> CHR ''/'')"

definition digit :: "char \<Rightarrow> bool" where
  "digit x = (48 \<le> code x \<and> code x \<le> 57)"

definition alnum :: "char \<Rightarrow> bool" where
  "alnum x = (let n = code x in (65 \<le> n \<and> n \<le> 90) \<or> (97 \<le> n \<and> n \<le> 122) \<or> (48 \<le> n \<and> n \<le> 57))"

text \<open>\<open>[A-Za-z0-9_-]\<close>\<close>

definition id_char :: "char \<Rightarrow> bool" where
  "id_char x = (alnum x \<or> x = CHR ''_'' \<or> x = CHR ''-'')"

text \<open>\<open>[^"&?\/\s]\<close>\<close>

definition yt_char :: "char \<Rightarrow> bool" where
  "yt_char x = (x \<noteq> CHR 0x22 \<and> x \<noteq> CHR ''&'' \<and> x \<noteq> CHR ''?'' \<and> x \<noteq> CHR ''/'' \<and> \<not> is_space x)"

text \<open>\<open>(?:https?:\/\/)?\<close> and \<open>(?:www\.)?\<close>, the head of every platform pattern.\<close>

definition opt_scheme :: re where
  "opt_scheme = Opt (seq [str ''http'', Opt (chr CHR ''s''), str ''://''])"

definition opt_www :: re where
  "opt_www = Opt (str ''www.'')"

section \<open>url-parser.ts\<close>

datatype platform = Youtube | Instagram | Tiktok | Linkedin | Twitter | Generic

text \<open>\<open>(?:[^\/]+\/.+\/|(?:v|e(?:mbed)?)\/|.*[?&]v=)\<close>, what may follow \<open>youtube.com/\<close>.\<close>

definition youtube_com_paths :: re where
  "youtube_com_paths =
     Alt (seq [Plus not_slash, chr CHR ''/'', Plus dot, chr CHR ''/''])
    (Alt (seq [Alt (chr CHR ''v'') (seq [chr CHR ''e'', Opt (str ''mbed'')]), chr CHR ''/''])
         (seq [Star dot, Cls (\<lambda>x. x = CHR ''?'' \<or> x = CHR ''&''), str ''v='']))"

definition youtube_patterns :: "re list" where
  "youtube_patterns =
    [ seq [opt_scheme, opt_www,
           Alt (seq [str ''youtube.com/'', youtube_com_paths]) (str ''youtu.be/''),
           Grp (repeat_n 11 (Cls yt_char))],
      seq [opt_scheme, opt_www, str ''youtube.com/shorts/'', Grp (repeat_n 11 (Cls yt_char))] ]"

definition instagram_patterns :: "re list" where
  "instagram_patterns =
    [ seq [opt_scheme, opt_www, str ''instagram.com/'',
           Alt (chr CHR ''p'') (Alt (str ''reel'') (str ''tv'')), chr CHR ''/'',
           Grp (Plus id_char)] ]"

definition tiktok_patterns :: "re list" where
  "tiktok_patterns =
    [ seq [opt_scheme, opt_www, str ''tiktok.com/@'', Plus not_slash, str ''/video/'',
           Grp (Plus digit)],
      seq [opt_scheme, str ''vm.tiktok.com/'', Grp (Plus alnum)] ]"

definition linkedin_patterns :: "re list" where
  "linkedin_patterns =
    [ seq [opt_scheme, opt_www, str ''linkedin.com/posts/'', Plus not_slash, chr CHR ''/'',
           Grp (Plus id_char)],
      seq [opt_scheme, opt_www, str ''linkedin.com/pulse/'', Plus not_slash, chr CHR ''/'',
           Grp (Plus id_char)] ]"

definition twitter_patterns :: "re list" where
  "twitter_patterns =
    [ seq [opt_scheme, opt_www, Alt (str ''twitter.com'') (str ''x.com''), chr CHR ''/'',
           Plus not_slash, str ''/status/'', Grp (Plus digit)] ]"

definition generic_patterns :: "re list" where
  "generic_patterns = [ seq [Bol, str ''http'', Opt (chr CHR ''s''), str ''://'', Plus dot] ]"

text \<open>\<open>PLATFORM_PATTERNS\<close>, in the order of its keys, which \<open>Object.entries\<close> follows.\<close>

definition PLATFORM_PATTERNS :: "(platform \<times> re list) list" where
  "PLATFORM_PATTERNS =
    [ (Youtube, youtube_patterns), (Instagram, instagram_patterns),
      (Tiktok, tiktok_patterns), (Linkedin, linkedin_patterns),
      (Twitter, twitter_patterns), (Generic, generic_patterns) ]"

text \<open>The inner loop of \<open>detectPlatform\<close>: whether some pattern of the list tests true.\<close>

fun any_test :: "re list \<Rightarrow> string \<Rightarrow> bool" where
  "any_test [] u = False"
| "any_test (r # rs) u = (if re_test r u then True else any_test rs u)"

fun detect_in :: "(platform \<times> re list) list \<Rightarrow> string \<Rightarrow> platform" where
  "detect_in [] u = Generic"
| "detect_in ((p, pats) # rest) u =
     (if p = Generic then detect_in rest u
      else if any_test pats u then p
      else detect_in rest u)"

definition detectPlatform :: "string \<Rightarrow> platform" where
  "detectPlatform u = detect_in PLATFORM_PATTERNS u"

text \<open>
  The loop of the identifier extractors: the first pattern whose match has a truthy group 1
  gives the result, \<open>None\<close> is \<open>null\<close>.
\<close>

fun first_id :: "re list \<Rightarrow> string \<Rightarrow> string option" where
  "first_id [] u = None"
| "first_id (r # rs) u =
     (case match1 r u of
        Some (Some w) \<Rightarrow> if w \<noteq> [] then Some w else first_id rs u
      | _ \<Rightarrow> first_id rs u)"

definition extractYouTubeVideoId :: "string \<Rightarrow> string option" where
  "extractYouTubeVideoId u = first_id youtube_patterns u"

definition extractTikTokVideoId :: "string \<Rightarrow> string option" where
  "extractTikTokVideoId u = first_id tiktok_patterns u"

definition extractLinkedInPostId :: "string \<Rightarrow> string option" where
  "extractLinkedInPostId u = first_id linkedin_patterns u"

text \<open>
  \<open>match ? match[1] : null\<close> on the only pattern of the platform; an undefined group 1
  and \<open>null\<close> are both \<open>None\<close>.
\<close>

definition only_id :: "re \<Rightarrow> string \<Rightarrow> string option" where
  "only_id r u = (case match1 r u of Some (Some w) \<Rightarrow> Some w | _ \<Rightarrow> None)"

definition extractInstagramPostId :: "string \<Rightarrow> string option" where
  "extractInstagramPostId u = only_id (instagram_patterns ! 0) u"

definition extractTwitterTweetId :: "string \<Rightarrow> string option" where
  "extractTwitterTweetId u = only_id (twitter_patterns ! 0) u"


text \<open>
  The platform's \<open>URL\<close> class is not part of the repository: it is a parameter. \<open>'u\<close> is
  the type of URL objects; \<open>None\<close> stands for the \<open>TypeError\<close> the constructor throws.
\<close>

record 'u url_api =
  URL_new :: "string \<Rightarrow> 'u option"
  URL_base :: "string \<Rightarrow> string \<Rightarrow> 'u option"
  hostname :: "'u \<Rightarrow> string"
  protocol :: "'u \<Rightarrow> string"
  origin :: "'u \<Rightarrow> string"
  searchParams_delete :: "string \<Rightarrow> 'u \<Rightarrow> 'u"
  toString :: "'u \<Rightarrow> string"

definition isEmbeddable :: "'u url_api \<Rightarrow> string \<Rightarrow> bool" where
  "isEmbeddable api u =
     (case URL_new api u of
        None \<Rightarrow> False
      | Some x \<Rightarrow> protocol api x = ''http:'' \<or> protocol api x = ''https:'')"

definition trackingParams :: "string list" where
  "trackingParams =
    [''utm_source'', ''utm_medium'', ''utm_campaign'', ''utm_term'', ''utm_content'',
     ''fbclid'', ''gclid'', ''ref'', ''source'', ''campaign_id'']"

text \<open>The first statement of \<open>normalizeUrl\<close>, which assigns to the parameter \<open>url\<close>.\<close>

definition add_protocol :: "string \<Rightarrow> string" where
  "add_protocol u =
     (if \<not> startsWith u ''http://'' \<and> \<not> startsWith u ''https://'' then ''https://'' @ u else u)"

text \<open>The \<open>forEach\<close> over \<open>trackingParams\<close>, which deletes each parameter in turn.\<close>

definition delete_all :: "'u url_api \<Rightarrow> string list \<Rightarrow> 'u \<Rightarrow> 'u" where
  "delete_all api ps x = foldl (\<lambda>y p. searchParams_delete api p y) x ps"

text \<open>
  \<open>normalizeUrl\<close>: the \<open>catch\<close> returns the variable \<open>url\<close>, which by then holds the
  string with the protocol added.
\<close>

definition normalizeUrl :: "'u url_api \<Rightarrow> string \<Rightarrow> string" where
  "normalizeUrl api u =
     (let url = add_protocol u in
      case URL_new api url of
        None \<Rightarrow> url
      | Some urlObj \<Rightarrow> toString api (delete_all api trackingParams urlObj))"

definition isValidUrl :: "'u url_api \<Rightarrow> string \<Rightarrow> bool" where
  "isValidUrl api u = (URL_new api u \<noteq> None)"

definition getDomain :: "'u url_api \<Rightarrow> string \<Rightarrow> string option" where
  "getDomain api u = (case URL_new api u of None \<Rightarrow> None | Some x \<Rightarrow> Some (hostname api x))"

definition isSameDomain :: "'u url_api \<Rightarrow> string \<Rightarrow> string \<Rightarrow> bool" where
  "isSameDomain api u1 u2 =
     (getDomain api u1 \<noteq> None \<and> getDomain api u2 \<noteq> None \<and> getDomain api u1 = getDomain api u2)"

section \<open>types.ts\<close>

datatype content_type = Video | Image | Article | Audio | Link

text \<open>
  A JavaScript number as far as the code produces one: \<open>NaN\<close>; an integer of magnitude at
  most \<open>2^53\<close>, which a double holds exactly (negative zero is \<open>Num 0\<close>); or
  \<open>Rounded v\<close>, the double the platform gives for an integer \<open>v\<close> of larger magnitude, whose
  rounding (to a neighbouring double, or to an infinity) is not modelled.
\<close>

datatype jsnum = NaN | Num int | Rounded int

record author_info =
  author_name :: "string option"
  author_url :: "string option"

record provider_info =
  provider_name :: string
  provider_url :: string

record embed_data =
  videoId :: string
  embedUrl :: string

text \<open>
  \<open>EmbedMetadata\<close> as the object it is at run time: every property may be absent
  (\<open>None\<close> is \<open>undefined\<close>), also the three the interface declares as required, since the
  extractors build the object as a \<open>Partial<EmbedMetadata>\<close> and cast it.
\<close>

record EmbedMetadata =
  md_title :: "string option"
  md_description :: "string option"
  md_image :: "string option"
  md_type :: "content_type option"
  md_platform :: "platform option"
  md_url :: "string option"
  md_embedData :: "embed_data option"
  md_width :: "jsnum option"
  md_height :: "jsnum option"
  md_author :: "author_info option"
  md_provider :: "provider_info option"

definition no_metadata :: EmbedMetadata where
  "no_metadata =
     \<lparr> md_title = None, md_description = None, md_image = None, md_type = None,
       md_platform = None, md_url = None, md_embedData = None, md_width = None,
       md_height = None, md_author = None, md_provider = None \<rparr>"

record RenderOptions =
  ro_width :: "jsnum option"
  ro_height :: "jsnum option"
  ro_autoplay :: "bool option"
  ro_controls :: "bool option"
  ro_dark :: "bool option"

record OEmbedOptions =
  maxwidth :: "jsnum option"
  maxheight :: "jsnum option"

datatype oembed_type = Rich | OVideo | Photo | OLink

datatype error = Error string

section \<open>The outside world\<close>

text \<open>
  A fetched page as \<open>cheerio\<close> lets the code see it: the \<open>content\<close> attribute of the first
  \<open>meta\<close> element with a given \<open>property\<close>, \<open>name\<close> or \<open>itemprop\<close> (\<open>None\<close> is \<open>undefined\<close>),
  and the text of the first \<open>title\<close> element.
\<close>

record document =
  meta_property :: "string \<Rightarrow> string option"
  meta_name :: "string \<Rightarrow> string option"
  meta_itemprop :: "string \<Rightarrow> string option"
  title_text :: string

text \<open>The body of the answer of YouTube's oEmbed endpoint, as far as the code reads it.\<close>

record oembed_data =
  o_title :: "string option"
  o_author_name :: "string option"
  o_author_url :: "string option"
  o_thumbnail_url :: "string option"
  o_width :: "jsnum option"
  o_height :: "jsnum option"

text \<open>
  What the oEmbed request gives: \<open>axios.get\<close> throws (no connection, a status outside 2xx,
  the timeout), or the body is falsy, or it is an object.
\<close>

datatype oembed_response = Failed | Falsy | Payload oembed_data

datatype request = GetPage string | GetOEmbed string

text \<open>
  The network is an oracle indexed by the number of requests made so far, so that two
  requests for one URL may be answered differently. \<open>page w n u\<close> answers request number
  \<open>n\<close> when it fetches the page \<open>u\<close> and loads it: \<open>None\<close> when \<open>axios.get\<close> or
  \<open>cheerio.load\<close> throws. \<open>requests\<close> is the log of the outbound requests, the only part
  that changes.
\<close>

record world =
  page :: "nat \<Rightarrow> string \<Rightarrow> document option"
  oembed :: "nat \<Rightarrow> string \<Rightarrow> oembed_response"
  requests :: "request list"

definition fetch_page :: "string \<Rightarrow> world \<Rightarrow> document option \<times> world" where
  "fetch_page u w = (page w (length (requests w)) u, w\<lparr>requests := requests w @ [GetPage u]\<rparr>)"

definition fetch_oembed :: "string \<Rightarrow> world \<Rightarrow> oembed_response \<times> world" where
  "fetch_oembed u w =
     (oembed w (length (requests w)) u, w\<lparr>requests := requests w @ [GetOEmbed u]\<rparr>)"

section \<open>String helpers of the platform\<close>

text \<open>\<open>String.prototype.trim\<close>: white space and line terminators go from both ends.\<close>

definition trim :: "string \<Rightarrow> string" where
  "trim s = rev (dropWhile is_space (rev (dropWhile is_space s)))"

text \<open>\<open>toLowerCase\<close> on code units below 256: \<open>A-Z\<close> and the Latin-1 capitals.\<close>

definition lower_char :: "char \<Rightarrow> char" where
  "lower_char c = (let n = code c in
     if (65 \<le> n \<and> n \<le> 90) \<or> (192 \<le> n \<and> n \<le> 222 \<and> n \<noteq> 215) then char_of (n + 32) else c)"

definition toLowerCase :: "string \<Rightarrow> string" where
  "toLowerCase s = map lower_char s"

text \<open>\<open>s.replace(pat, rep)\<close> with a string pattern: the first occurrence only.\<close>

fun replace_first :: "string \<Rightarrow> string \<Rightarrow> string \<Rightarrow> string" where
  "replace_first pat rep [] = (if pat = [] then rep else [])"
| "replace_first pat rep (c # cs) =
     (if startsWith (c # cs) pat then rep @ drop (length pat) (c # cs)
      else c # replace_first pat rep cs)"

text \<open>
  \<open>parseInt(s, 10)\<close>: leading white space, a sign, then the longest run of digits;
  \<open>NaN\<close> when there is no digit. The integer the digits denote is the result when a
  double holds it exactly, and is rounded by the platform otherwise.
\<close>

definition parseInt10 :: "string \<Rightarrow> jsnum" where
  "parseInt10 s =
     (let t = dropWhile is_space s;
          neg = (case t of [] \<Rightarrow> False | c # cs \<Rightarrow> c = CHR ''-'');
          r = (case t of [] \<Rightarrow> [] | c # cs \<Rightarrow> if c = CHR ''-'' \<or> c = CHR ''+'' then cs else t);
          ds = takeWhile digit r;
          v = foldl (\<lambda>a c. 10 * a + int (code c - 48)) 0 ds
      in if ds = [] then NaN
         else if v \<le> 9007199254740992 then Num (if neg then - v else v)
         else Rounded (if neg then - v else v))"

text \<open>Truthiness of a string or \<open>undefined\<close>, and the operator \<open>||\<close> on such values.\<close>

definition truthy :: "string option \<Rightarrow> bool" where
  "truthy a = (case a of None \<Rightarrow> False | Some s \<Rightarrow> s \<noteq> [])"

definition or_else :: "string option \<Rightarrow> string option \<Rightarrow> string option" where
  "or_else a b = (if truthy a then a else b)"

text \<open>\<open>if (x) field = f(x)\<close>: the field stays undefined when \<open>x\<close> is falsy.\<close>

definition when_truthy :: "string option \<Rightarrow> (string \<Rightarrow> 'a) \<Rightarrow> 'a option" where
  "when_truthy a f = (case a of None \<Rightarrow> None | Some s \<Rightarrow> if s \<noteq> [] then Some (f s) else None)"

section \<open>metadata.ts: MetadataExtractor\<close>

text \<open>\<open>if (content) return content.trim()\<close>\<close>

definition content_of :: "string option \<Rightarrow> string option" where
  "content_of a = when_truthy a trim"

fun extractMetaContent :: "document \<Rightarrow> string list \<Rightarrow> string option" where
  "extractMetaContent d [] = None"
| "extractMetaContent d (sel # sels) =
     (case content_of (meta_property d sel) of
        Some t \<Rightarrow> Some t
      | None \<Rightarrow>
         (case content_of (meta_name d sel) of
            Some t \<Rightarrow> Some t
          | None \<Rightarrow>
             (case content_of (meta_itemprop d sel) of
                Some t \<Rightarrow> Some t
              | None \<Rightarrow> extractMetaContent d sels)))"

definition getDomainFromUrl :: "'u url_api \<Rightarrow> string \<Rightarrow> string" where
  "getDomainFromUrl api u =
     (case URL_new api u of
        None \<Rightarrow> ''Unknown''
      | Some x \<Rightarrow> replace_first ''www.'' [] (hostname api x))"

text \<open>The record both \<open>catch\<close> blocks of the extractor return.\<close>

definition domain_only :: "'u url_api \<Rightarrow> string \<Rightarrow> EmbedMetadata" where
  "domain_only api u =
     no_metadata\<lparr> md_url := Some u, md_platform := Some Generic, md_type := Some Link,
                  md_title := Some (getDomainFromUrl api u) \<rparr>"

text \<open>The \<open>switch\<close> on \<open>ogType.toLowerCase()\<close>.\<close>

definition og_type_switch :: "string \<Rightarrow> content_type" where
  "og_type_switch t =
     (if t = ''video'' \<or> t = ''video.movie'' \<or> t = ''video.episode'' \<or> t = ''video.tv_show''
         \<or> t = ''video.other'' then Video
      else if t = ''music'' \<or> t = ''music.song'' \<or> t = ''music.album'' \<or> t = ''music.playlist''
      then Audio
      else if t = ''article'' \<or> t = ''blog'' \<or> t = ''news'' then Article
      else Link)"

text \<open>
  \<open>Make image URL absolute\<close>: \<open>None\<close> when one of the two \<open>new URL\<close> throws, otherwise the
  value of \<open>metadata.image\<close> afterwards.
\<close>

definition absolute_image :: "'u url_api \<Rightarrow> string \<Rightarrow> string option \<Rightarrow> string option option" where
  "absolute_image api u img =
     (case img of
        None \<Rightarrow> Some None
      | Some i \<Rightarrow>
         if i \<noteq> [] \<and> \<not> startsWith i ''http'' then
           (case URL_new api u of
              None \<Rightarrow> None
            | Some baseUrl \<Rightarrow>
               (case URL_base api i (origin api baseUrl) of
                  None \<Rightarrow> None
                | Some r \<Rightarrow> Some (Some (toString api r))))
         else Some (Some i))"

text \<open>
  The \<open>try\<close> block of \<open>extractOpenGraph\<close> after the page has been fetched and loaded;
  \<open>None\<close> when it throws.
\<close>

definition openGraph_of :: "'u url_api \<Rightarrow> string \<Rightarrow> document \<Rightarrow> EmbedMetadata option" where
  "openGraph_of api u d =
     (let title = (case extractMetaContent d [''og:title'', ''twitter:title'', ''title''] of
                     Some t \<Rightarrow> if t \<noteq> [] then t else trim (title_text d)
                   | None \<Rightarrow> trim (title_text d));
          description = or_else (extractMetaContent d
                           [''og:description'', ''twitter:description'', ''description'']) None;
          image = or_else (extractMetaContent d
                           [''og:image'', ''twitter:image'', ''twitter:image:src'']) None;
          ogType = extractMetaContent d [''og:type''];
          ty = (case when_truthy ogType (\<lambda>t. og_type_switch (toLowerCase t)) of
                  Some t \<Rightarrow> t | None \<Rightarrow> Link);
          width = extractMetaContent d [''og:video:width'', ''twitter:player:width''];
          height = extractMetaContent d [''og:video:height'', ''twitter:player:height''];
          authorName = extractMetaContent d [''og:site_name'', ''twitter:site'', ''author'']
      in case absolute_image api u image of
           None \<Rightarrow> None
         | Some image' \<Rightarrow>
            Some (no_metadata\<lparr>
              md_url := Some u, md_platform := Some Generic, md_type := Some ty,
              md_title := Some title, md_description := description, md_image := image',
              md_width := when_truthy width parseInt10,
              md_height := when_truthy height parseInt10,
              md_author := when_truthy authorName
                 (\<lambda>a. \<lparr> author_name = Some (replace_first ''@'' [] a), author_url = None \<rparr>) \<rparr>))"

definition extractOpenGraph :: "'u url_api \<Rightarrow> string \<Rightarrow> world \<Rightarrow> EmbedMetadata \<times> world" where
  "extractOpenGraph api u w =
     (case fetch_page u w of
        (None, w') \<Rightarrow> (domain_only api u, w')
      | (Some d, w') \<Rightarrow>
         (case openGraph_of api u d of
            None \<Rightarrow> (domain_only api u, w')
          | Some m \<Rightarrow> (m, w')))"

text \<open>The \<open>switch\<close> on \<open>cardType.toLowerCase()\<close>.\<close>

definition card_type_switch :: "string \<Rightarrow> content_type" where
  "card_type_switch t =
     (if t = ''player'' then Video
      else if t = ''summary_large_image'' \<or> t = ''summary'' then Article
      else Link)"

definition twitterCards_of :: "string \<Rightarrow> document \<Rightarrow> EmbedMetadata" where
  "twitterCards_of u d =
     (let title = (case extractMetaContent d [''twitter:title''] of
                     Some t \<Rightarrow> if t \<noteq> [] then t else trim (title_text d)
                   | None \<Rightarrow> trim (title_text d));
          description = or_else (extractMetaContent d [''twitter:description'']) None;
          image = or_else (extractMetaContent d [''twitter:image'', ''twitter:image:src'']) None;
          cardType = extractMetaContent d [''twitter:card''];
          ty = (case when_truthy cardType (\<lambda>t. card_type_switch (toLowerCase t)) of
                  Some t \<Rightarrow> t | None \<Rightarrow> Link)
      in no_metadata\<lparr>
           md_url := Some u, md_platform := Some Generic, md_type := Some ty,
           md_title := Some title, md_description := description, md_image := image \<rparr>)"

definition extractTwitterCards :: "'u url_api \<Rightarrow> string \<Rightarrow> world \<Rightarrow> EmbedMetadata \<times> world" where
  "extractTwitterCards api u w =
     (case fetch_page u w of
        (None, w') \<Rightarrow> (domain_only api u, w')
      | (Some d, w') \<Rightarrow> (twitterCards_of u d, w'))"

text \<open>
  The record \<open>extractBasicMetadata\<close> builds from the two passes. \<open>||\<close> on the type keeps
  the first operand that is defined, since every type name is a truthy string.
\<close>

definition merge_metadata ::
  "'u url_api \<Rightarrow> string \<Rightarrow> EmbedMetadata \<Rightarrow> EmbedMetadata \<Rightarrow> EmbedMetadata" where
  "merge_metadata api u og tw =
     no_metadata\<lparr>
       md_title := Some (case or_else (md_title og) (md_title tw) of
                           Some t \<Rightarrow> if t \<noteq> [] then t else getDomainFromUrl api u
                         | None \<Rightarrow> getDomainFromUrl api u),
       md_description := or_else (md_description og) (md_description tw),
       md_image := or_else (md_image og) (md_image tw),
       md_type := Some (case md_type og of
                          Some t \<Rightarrow> t
                        | None \<Rightarrow> (case md_type tw of Some t \<Rightarrow> t | None \<Rightarrow> Link)),
       md_platform := Some Generic,
       md_url := Some u,
       md_author := md_author og,
       md_width := md_width og,
       md_height := md_height og \<rparr>"

text \<open>No statement of \<open>extractBasicMetadata\<close> can throw: the result is always \<open>Inr\<close>.\<close>

definition extractBasicMetadata ::
  "'u url_api \<Rightarrow> string \<Rightarrow> world \<Rightarrow> (error + EmbedMetadata) \<times> world" where
  "extractBasicMetadata api u w =
     (case extractOpenGraph api u w of
        (og, w1) \<Rightarrow>
          if \<not> truthy (md_title og) \<or> \<not> truthy (md_description og) then
            (case extractTwitterCards api u w1 of
               (tw, w2) \<Rightarrow> (Inr (merge_metadata api u og tw), w2))
          else (Inr og, w1))"

section \<open>parsers/youtube.ts and parsers/generic.ts\<close>

text \<open>
  The markup of \<open>generateEmbed\<close> is not modelled as text: it is a function of the parser,
  the metadata and the options, and stands here as these three. Building it sends no
  request.
\<close>

datatype html =
    YouTubeEmbedHtml EmbedMetadata RenderOptions
  | GenericEmbedHtml EmbedMetadata RenderOptions

text \<open>
  The interface \<open>PlatformParser\<close>. \<open>extractMetadata\<close> may throw (\<open>Inl\<close>) and may send
  requests; \<open>isGenericParser\<close> is the test \<open>parser instanceof GenericParser\<close>.
\<close>

record parser =
  canHandle :: "string \<Rightarrow> bool"
  extractMetadata :: "string \<Rightarrow> world \<Rightarrow> (error + EmbedMetadata) \<times> world"
  generateEmbed :: "EmbedMetadata \<Rightarrow> RenderOptions \<Rightarrow> html"
  isGenericParser :: bool

definition youtube_provider :: provider_info where
  "youtube_provider = \<lparr> provider_name = ''YouTube'', provider_url = ''https://youtube.com'' \<rparr>"

definition youtube_embedData :: "string \<Rightarrow> embed_data" where
  "youtube_embedData v = \<lparr> videoId = v, embedUrl = ''https://www.youtube.com/embed/'' @ v \<rparr>"

text \<open>\<open>getThumbnailUrl\<close> with its default quality.\<close>

definition getThumbnailUrl :: "string \<Rightarrow> string" where
  "getThumbnailUrl v = ''https://img.youtube.com/vi'' @ ''/'' @ v @ ''/'' @ ''hqdefault'' @ ''.jpg''"

text \<open>A value inside a template literal: \<open>undefined\<close> prints as such.\<close>

definition template_str :: "string option \<Rightarrow> string" where
  "template_str a = (case a of None \<Rightarrow> ''undefined'' | Some s \<Rightarrow> s)"

text \<open>The record built from the oEmbed answer.\<close>

definition youtube_from_oembed :: "string \<Rightarrow> string \<Rightarrow> oembed_data \<Rightarrow> EmbedMetadata" where
  "youtube_from_oembed v u d =
     no_metadata\<lparr>
       md_title := o_title d,
       md_description := Some (''Watch '' @ [CHR 0x22] @ template_str (o_title d) @ [CHR 0x22]
                                @ '' by '' @ template_str (o_author_name d)),
       md_image := o_thumbnail_url d,
       md_type := Some Video,
       md_platform := Some Youtube,
       md_url := Some u,
       md_width := o_width d,
       md_height := o_height d,
       md_author := Some \<lparr> author_name = o_author_name d, author_url = o_author_url d \<rparr>,
       md_provider := Some youtube_provider,
       md_embedData := Some (youtube_embedData v) \<rparr>"

definition extractBasicVideoInfo :: "string \<Rightarrow> string \<Rightarrow> EmbedMetadata" where
  "extractBasicVideoInfo v u =
     no_metadata\<lparr>
       md_title := Some ''YouTube Video'',
       md_description := Some ''Watch this video on YouTube'',
       md_image := Some (getThumbnailUrl v),
       md_type := Some Video,
       md_platform := Some Youtube,
       md_url := Some u,
       md_width := Some (Num 560),
       md_height := Some (Num 315),
       md_provider := Some youtube_provider,
       md_embedData := Some (youtube_embedData v) \<rparr>"

text \<open>The record of the \<open>catch\<close> block of \<open>YouTubeParser.extractMetadata\<close>.\<close>

definition youtube_minimal :: "string \<Rightarrow> string \<Rightarrow> EmbedMetadata" where
  "youtube_minimal v u =
     no_metadata\<lparr>
       md_title := Some ''YouTube Video'',
       md_description := Some ''Watch this video on YouTube'',
       md_image := Some (getThumbnailUrl v),
       md_type := Some Video,
       md_platform := Some Youtube,
       md_url := Some u,
       md_provider := Some youtube_provider,
       md_embedData := Some (youtube_embedData v) \<rparr>"

text \<open>
  \<open>fetchOEmbedData\<close> catches every failure of the request and returns \<open>null\<close>
  (\<open>None\<close> here, as for a falsy body: the caller only tests truthiness).
\<close>

definition fetchOEmbedData :: "string \<Rightarrow> world \<Rightarrow> oembed_data option \<times> world" where
  "fetchOEmbedData u w =
     (case fetch_oembed u w of
        (Payload d, w') \<Rightarrow> (Some d, w')
      | (Falsy, w') \<Rightarrow> (None, w')
      | (Failed, w') \<Rightarrow> (None, w'))"

text \<open>
  \<open>YouTubeParser.extractMetadata\<close>. Inside its \<open>try\<close> block nothing can throw
  (\<open>fetchOEmbedData\<close> has caught the request's failure, and the body of the answer is
  parsed JSON, whose properties are read and printed without an exception), so the
  \<open>catch\<close> block, which would return \<open>youtube_minimal\<close>, is never entered.
\<close>

definition YouTubeParser_extractMetadata ::
  "string \<Rightarrow> world \<Rightarrow> (error + EmbedMetadata) \<times> world" where
  "YouTubeParser_extractMetadata u w =
     (case extractYouTubeVideoId u of
        None \<Rightarrow> (Inl (Error ''Invalid YouTube URL''), w)
      | Some v \<Rightarrow>
         if v = [] then (Inl (Error ''Invalid YouTube URL''), w)
         else (case fetchOEmbedData u w of
                 (Some d, w') \<Rightarrow> (Inr (youtube_from_oembed v u d), w')
               | (None, w') \<Rightarrow> (Inr (extractBasicVideoInfo v u), w')))"

definition YouTubeParser :: parser where
  "YouTubeParser =
     \<lparr> canHandle = (\<lambda>u. detectPlatform u = Youtube),
       extractMetadata = YouTubeParser_extractMetadata,
       generateEmbed = YouTubeEmbedHtml,
       isGenericParser = False \<rparr>"

definition getBaseUrl :: "'u url_api \<Rightarrow> string \<Rightarrow> string" where
  "getBaseUrl api u =
     (case URL_new api u of
        None \<Rightarrow> u
      | Some x \<Rightarrow> protocol api x @ ''//'' @ hostname api x)"

text \<open>
  \<open>GenericParser\<close> has a \<open>getDomainFromUrl\<close> of its own, with the same body as the one of
  \<open>MetadataExtractor\<close>.
\<close>

definition generic_provider :: "'u url_api \<Rightarrow> string \<Rightarrow> provider_info" where
  "generic_provider api u =
     \<lparr> provider_name = getDomainFromUrl api u, provider_url = getBaseUrl api u \<rparr>"

text \<open>The record of the \<open>catch\<close> block of \<open>GenericParser.extractMetadata\<close>.\<close>

definition generic_minimal :: "'u url_api \<Rightarrow> string \<Rightarrow> EmbedMetadata" where
  "generic_minimal api u =
     no_metadata\<lparr>
       md_title := Some (getDomainFromUrl api u),
       md_description := Some ''Visit this link to view the content'',
       md_type := Some Link,
       md_platform := Some Generic,
       md_url := Some u,
       md_provider := Some (generic_provider api u) \<rparr>"

definition GenericParser_extractMetadata ::
  "'u url_api \<Rightarrow> string \<Rightarrow> world \<Rightarrow> (error + EmbedMetadata) \<times> world" where
  "GenericParser_extractMetadata api u w =
     (case extractBasicMetadata api u w of
        (Inr m, w') \<Rightarrow>
          (Inr (m\<lparr> md_platform := Some Generic, md_provider := Some (generic_provider api u) \<rparr>), w')
      | (Inl e, w') \<Rightarrow> (Inr (generic_minimal api u), w'))"

definition GenericParser :: "'u url_api \<Rightarrow> parser" where
  "GenericParser api =
     \<lparr> canHandle = (\<lambda>u. True),
       extractMetadata = GenericParser_extractMetadata api,
       generateEmbed = GenericEmbedHtml,
       isGenericParser = True \<rparr>"

section \<open>embed-service.ts: EmbedService\<close>

text \<open>The field \<open>parsers\<close> as the constructor sets it.\<close>

definition service_parsers :: "'u url_api \<Rightarrow> parser list" where
  "service_parsers api = [YouTubeParser, GenericParser api]"

fun findParser :: "parser list \<Rightarrow> string \<Rightarrow> parser option" where
  "findParser [] u = None"
| "findParser (p # ps) u = (if canHandle p u then Some p else findParser ps u)"

text \<open>
  \<open>EmbedService.extractMetadata\<close>, for any value of the field \<open>parsers\<close>. The fallback
  creates a new \<open>GenericParser\<close> and returns what it returns or throws.
\<close>

definition EmbedService_extractMetadata ::
  "'u url_api \<Rightarrow> parser list \<Rightarrow> string \<Rightarrow> world \<Rightarrow> (error + EmbedMetadata) \<times> world" where
  "EmbedService_extractMetadata api ps u w =
     (if \<not> isValidUrl api u then (Inl (Error ''Invalid URL provided''), w)
      else
        let normalizedUrl = normalizeUrl api u in
        case findParser ps normalizedUrl of
          None \<Rightarrow> (Inl (Error ''No suitable parser found for URL''), w)
        | Some p \<Rightarrow>
           (case extractMetadata p normalizedUrl w of
              (Inr m, w') \<Rightarrow> (Inr (m\<lparr> md_url := Some normalizedUrl \<rparr>), w')
            | (Inl e, w') \<Rightarrow>
                if \<not> isGenericParser p
                then extractMetadata (GenericParser api) normalizedUrl w'
                else (Inl e, w')))"

definition mapTypeToOEmbed :: "content_type option \<Rightarrow> oembed_type" where
  "mapTypeToOEmbed t =
     (case t of
        Some Video \<Rightarrow> OVideo
      | Some Image \<Rightarrow> Photo
      | Some Article \<Rightarrow> Rich
      | Some Audio \<Rightarrow> Rich
      | _ \<Rightarrow> OLink)"

text \<open>Truthiness of a number or \<open>undefined\<close>, and \<open>||\<close> on such values.\<close>

definition num_truthy :: "jsnum option \<Rightarrow> bool" where
  "num_truthy a =
     (case a of Some (Num n) \<Rightarrow> n \<noteq> 0 | Some (Rounded n) \<Rightarrow> True | _ \<Rightarrow> False)"

definition num_or :: "jsnum option \<Rightarrow> jsnum option \<Rightarrow> jsnum option" where
  "num_or a b = (if num_truthy a then a else b)"

record OEmbedResponse =
  oe_type :: oembed_type
  oe_version :: string
  oe_html :: html
  oe_width :: "jsnum option"
  oe_height :: "jsnum option"
  oe_title :: "string option"
  oe_author_name :: "string option"
  oe_author_url :: "string option"
  oe_provider_name :: "string option"
  oe_provider_url :: "string option"
  oe_cache_age :: int
  oe_thumbnail_url :: "string option"
  oe_thumbnail_width :: "jsnum option"
  oe_thumbnail_height :: "jsnum option"

definition oembed_of :: "parser \<Rightarrow> EmbedMetadata \<Rightarrow> OEmbedOptions \<Rightarrow> OEmbedResponse" where
  "oembed_of p m opts =
     (let renderOptions = \<lparr> ro_width = maxwidth opts, ro_height = maxheight opts,
                             ro_autoplay = None, ro_controls = None, ro_dark = None \<rparr>;
          thumb = (truthy (md_image m) \<and> (md_type m = Some Video \<or> md_type m = Some Image))
      in \<lparr> oe_type = mapTypeToOEmbed (md_type m),
           oe_version = ''1.0'',
           oe_html = generateEmbed p m renderOptions,
           oe_width = num_or (num_or (ro_width renderOptions) (md_width m)) (Some (Num 500)),
           oe_height = num_or (num_or (ro_height renderOptions) (md_height m)) (Some (Num 300)),
           oe_title = md_title m,
           oe_author_name = (case md_author m of None \<Rightarrow> None | Some a \<Rightarrow> author_name a),
           oe_author_url = (case md_author m of None \<Rightarrow> None | Some a \<Rightarrow> author_url a),
           oe_provider_name =
             or_else (case md_provider m of None \<Rightarrow> None | Some pr \<Rightarrow> Some (provider_name pr))
                     (Some ''External Content''),
           oe_provider_url = (case md_provider m of None \<Rightarrow> None | Some pr \<Rightarrow> Some (provider_url pr)),
           oe_cache_age = 3600,
           oe_thumbnail_url = (if thumb then md_image m else None),
           oe_thumbnail_width = (if thumb then md_width m else None),
           oe_thumbnail_height = (if thumb then md_height m else None) \<rparr>)"

text \<open>\<open>getOEmbed\<close> and \<open>renderEmbed\<close> look the parser up with the URL as given.\<close>

definition getOEmbed ::
  "'u url_api \<Rightarrow> parser list \<Rightarrow> string \<Rightarrow> OEmbedOptions \<Rightarrow> world
     \<Rightarrow> (error + OEmbedResponse) \<times> world" where
  "getOEmbed api ps u opts w =
     (case EmbedService_extractMetadata api ps u w of
        (Inl e, w') \<Rightarrow> (Inl e, w')
      | (Inr m, w') \<Rightarrow>
         (case findParser ps u of
            None \<Rightarrow> (Inl (Error ''No suitable parser found for URL''), w')
          | Some p \<Rightarrow> (Inr (oembed_of p m opts), w')))"

definition renderEmbed ::
  "'u url_api \<Rightarrow> parser list \<Rightarrow> string \<Rightarrow> RenderOptions \<Rightarrow> world \<Rightarrow> (error + html) \<times> world" where
  "renderEmbed api ps u opts w =
     (case EmbedService_extractMetadata api ps u w of
        (Inl e, w') \<Rightarrow> (Inl e, w')
      | (Inr m, w') \<Rightarrow>
         (case findParser ps u of
            None \<Rightarrow> (Inl (Error ''No suitable parser found for URL''), w')
          | Some p \<Rightarrow> (Inr (generateEmbed p m opts), w')))"

section \<open>Notions used to state the properties\<close>

text \<open>
  The first captured group of the first matching pattern of a list: \<open>None\<close> when no
  pattern matches.
\<close>

fun first_group :: "re list \<Rightarrow> string \<Rightarrow> string option option" where
  "first_group [] u = None"
| "first_group (r # rs) u = (if re_test r u then match1 r u else first_group rs u)"

text \<open>Every match of the pattern, from any state, defines group 1, with a value in \<open>P\<close>.\<close>

definition captures :: "(string \<Rightarrow> bool) \<Rightarrow> re \<Rightarrow> bool" where
  "captures P r = (\<forall>st x. x \<in> set (rmatch r st) \<longrightarrow> (\<exists>w. snd (snd x) = Some w \<and> P w))"

text \<open>Every match of the pattern, from any state, consumes a character in \<open>P\<close>.\<close>

definition needs :: "(char \<Rightarrow> bool) \<Rightarrow> re \<Rightarrow> bool" where
  "needs P r = (\<forall>i s g j t h. (j, t, h) \<in> set (rmatch r (i, s, g))
                  \<longrightarrow> (\<exists>x \<in> set (take (j - i) s). P x))"

definition http_prefixed :: "string \<Rightarrow> bool" where
  "http_prefixed s = (startsWith s ''http://'' \<or> startsWith s ''https://'')"

text \<open>
  What the proofs need of the platform's \<open>URL\<close> class: the serialisation of a URL object
  parses back to the object; deleting a query parameter twice is deleting it once, and two
  deletions commute; an object parsed from a string that starts with \<open>http://\<close> or
  \<open>https://\<close> serialises to such a string, and deleting a query parameter does not change
  that.
\<close>

definition url_laws :: "'u url_api \<Rightarrow> bool" where
  "url_laws api =
    ((\<forall>x. URL_new api (toString api x) = Some x) \<and>
     (\<forall>p x. searchParams_delete api p (searchParams_delete api p x) = searchParams_delete api p x) \<and>
     (\<forall>p q x. searchParams_delete api p (searchParams_delete api q x)
              = searchParams_delete api q (searchParams_delete api p x)) \<and>
     (\<forall>s x. URL_new api s = Some x \<and> http_prefixed s \<longrightarrow> http_prefixed (toString api x)) \<and>
     (\<forall>p x. http_prefixed (toString api (searchParams_delete api p x))
            = http_prefixed (toString api x)))"



text \<open>The three properties every \<open>EmbedMetadata\<close> must have.\<close>

definition has_required :: "EmbedMetadata \<Rightarrow> bool" where
  "has_required m = (md_type m \<noteq> None \<and> md_platform m \<noteq> None \<and> md_url m \<noteq> None)"

text \<open>
  The requests one call may send according to the specification: at most one oEmbed
  attempt, then at most one page fetch.
\<close>

fun claimed_fetches :: "request list \<Rightarrow> bool" where
  "claimed_fetches [] = True"
| "claimed_fetches [GetOEmbed a] = True"
| "claimed_fetches [GetPage b] = True"
| "claimed_fetches [GetOEmbed a, GetPage b] = True"
| "claimed_fetches rs = False"

text \<open>
  The requests one call sends for the normalised URL \<open>u\<close>: none, or the oEmbed attempt
  alone, or one fetch of the page, or two fetches of the page.
\<close>

definition actual_fetches :: "string \<Rightarrow> request list \<Rightarrow> bool" where
  "actual_fetches u rs =
     (rs = [] \<or> rs = [GetOEmbed u] \<or> rs = [GetPage u] \<or> rs = [GetPage u, GetPage u])"

section \<open>Sample inputs\<close>

text \<open>
  The \<open>URL\<close> class on seven URLs, each answered as the platform answers it; every other
  string is taken not to parse, which is what the platform says of the other strings the
  examples use: \<open>https://a b\<close>, and the relative paths \<open>/img.png\<close> and
  \<open>http-assets/img.png\<close> without a base.
\<close>

datatype sample_url = YtWatch | YtBare | YtShort | Post | PostRef | PostImage | Awww

definition sample_href :: "sample_url \<Rightarrow> string" where
  "sample_href x =
     (case x of
        YtWatch \<Rightarrow> ''https://www.youtube.com/watch?v=dQw4w9WgXcQ''
      | YtBare \<Rightarrow> ''https://www.youtube.com/watch''
      | YtShort \<Rightarrow> ''https://youtu.be/dQw4w9WgXcQ''
      | Post \<Rightarrow> ''https://www.example.com/post''
      | PostRef \<Rightarrow> ''https://www.example.com/post?ref=home''
      | PostImage \<Rightarrow> ''https://www.example.com/img.png''
      | Awww \<Rightarrow> ''https://awww.example.com/x'')"

definition sample_parse :: "string \<Rightarrow> sample_url option" where
  "sample_parse s =
     (if s = sample_href YtWatch then Some YtWatch
      else if s = sample_href YtBare then Some YtBare
      else if s = sample_href YtShort then Some YtShort
      else if s = sample_href Post then Some Post
      else if s = sample_href PostRef then Some PostRef
      else if s = sample_href PostImage then Some PostImage
      else if s = sample_href Awww then Some Awww
      else None)"

definition sample_host :: "sample_url \<Rightarrow> string" where
  "sample_host x =
     (case x of
        YtWatch \<Rightarrow> ''www.youtube.com''
      | YtBare \<Rightarrow> ''www.youtube.com''
      | YtShort \<Rightarrow> ''youtu.be''
      | Post \<Rightarrow> ''www.example.com''
      | PostRef \<Rightarrow> ''www.example.com''
      | PostImage \<Rightarrow> ''www.example.com''
      | Awww \<Rightarrow> ''awww.example.com'')"

definition sample_api :: "sample_url url_api" where
  "sample_api =
     \<lparr> URL_new = sample_parse,
       URL_base = (\<lambda>rel base.
          case sample_parse rel of
            Some x \<Rightarrow> Some x
          | None \<Rightarrow> if rel = ''/img.png'' \<and> base = ''https://www.example.com''
                    then Some PostImage else None),
       hostname = sample_host,
       protocol = (\<lambda>x. ''https:''),
       origin = (\<lambda>x. ''https://'' @ sample_host x),
       searchParams_delete = (\<lambda>p x.
          if x = PostRef \<and> p = ''ref'' then Post
          else if x = YtWatch \<and> p = ''v'' then YtBare
          else x),
       toString = sample_href \<rparr>"

text \<open>A page given by its \<open>meta\<close> elements with a \<open>property\<close>, those with a \<open>name\<close>, and its title.\<close>

definition doc_with :: "(string \<times> string) list \<Rightarrow> (string \<times> string) list \<Rightarrow> string \<Rightarrow> document" where
  "doc_with props names t =
     \<lparr> meta_property = map_of props, meta_name = map_of names,
       meta_itemprop = (\<lambda>sel. None), title_text = t \<rparr>"

text \<open>
  Three networks: every request fails; every page request is answered with one page; the
  first request fails and the later ones are answered with one page.
\<close>

definition offline :: world where
  "offline = \<lparr> page = (\<lambda>n u. None), oembed = (\<lambda>n u. Failed), requests = [] \<rparr>"

definition serving :: "document \<Rightarrow> world" where
  "serving d = \<lparr> page = (\<lambda>n u. Some d), oembed = (\<lambda>n u. Failed), requests = [] \<rparr>"

definition flaky :: "document \<Rightarrow> world" where
  "flaky d = \<lparr> page = (\<lambda>n u. if n = 0 then None else Some d), oembed = (\<lambda>n u. Failed),
               requests = [] \<rparr>"

text \<open>A parser for every URL that is not the generic one and always throws.\<close>

definition failing_parser :: parser where
  "failing_parser =
     \<lparr> canHandle = (\<lambda>u. True),
       extractMetadata = (\<lambda>u w. (Inl (Error ''unavailable''), w)),
       generateEmbed = GenericEmbedHtml,
       isGenericParser = False \<rparr>"

text \<open>A page with a title and no description.\<close>

definition title_only :: document where
  "title_only = doc_with [] [] ''A post''"


text \<open>
  Two pages with a relative image URL: one in \<open>meta name="twitter:image"\<close>, one in
  \<open>meta property="og:image"\<close> with a path that starts with the letters \<open>http\<close>.
\<close>

definition card_image_page :: document where
  "card_image_page = doc_with [] [(''twitter:image'', ''/img.png'')] ''A post''"

definition http_named_image_page :: document where
  "http_named_image_page =
     doc_with [(''og:title'', ''A post''), (''og:description'', ''Words''),
               (''og:image'', ''http-assets/img.png'')] [] ''A post''"

section \<open>The matcher\<close>

lemma star_states_consume:
  "(j, t, h) \<in> set (star_states c i s g) \<Longrightarrow> \<exists>w. s = w @ t \<and> j = i + length w"
proof (induction s arbitrary: i)
  case Nil
  then show ?case by simp
next
  case (Cons x xs)
  show ?case
  proof (cases "(j, t, h) = (i, x # xs, g)")
    case True
    then show ?thesis by simp
  next
    case False
    with Cons.prems have "c x" and "(j, t, h) \<in> set (star_states c (Suc i) xs g)"
      by (auto split: if_splits)
    from Cons.IH [OF this(2)] obtain w where "xs = w @ t" "j = Suc i + length w" by blast
    then have "x # xs = (x # w) @ t \<and> j = i + length (x # w)" by simp
    then show ?thesis by blast
  qed
qed

lemma rmatch_consume:
  "(j, t, h) \<in> set (rmatch r (i, s, g)) \<Longrightarrow> \<exists>w. s = w @ t \<and> j = i + length w"
proof (induction r arbitrary: i s g j t h)
  case (Cls c)
  then show ?case by (cases s) (auto split: if_splits)
next
  case Eps
  then show ?case by simp
next
  case (Sq a b)
  from Sq.prems obtain j' t' h' where
    m1: "(j', t', h') \<in> set (rmatch a (i, s, g))" and m2: "(j, t, h) \<in> set (rmatch b (j', t', h'))"
    by auto
  from Sq.IH(1) [OF m1] obtain w1 where w1: "s = w1 @ t'" "j' = i + length w1" by blast
  from Sq.IH(2) [OF m2] obtain w2 where w2: "t' = w2 @ t" "j = j' + length w2" by blast
  from w1 w2 have "s = (w1 @ w2) @ t \<and> j = i + length (w1 @ w2)" by simp
  then show ?case by blast
next
  case (Alt a b)
  then show ?case by auto
next
  case (Opt a)
  then show ?case by auto
next
  case (Star c)
  then show ?case by (auto dest: star_states_consume)
next
  case (Grp a)
  then show ?case by auto
next
  case Bol
  then show ?case by (auto split: if_splits)
qed

lemma times_Cls_length:
  "(j, t, h) \<in> set (rmatch (repeat_n n (Cls c)) (i, s, g)) \<Longrightarrow> j = i + n"
proof (induction n arbitrary: i s g)
  case 0
  then show ?case by simp
next
  case (Suc n)
  from Suc.prems obtain x xs where s: "s = x # xs" and "c x"
    and m: "(j, t, h) \<in> set (rmatch (repeat_n n (Cls c)) (Suc i, xs, g))"
    by (cases s) (auto split: if_splits)
  from Suc.IH [OF m] show ?case by simp
qed

lemma Plus_length:
  "(j, t, h) \<in> set (rmatch (Plus c) (i, s, g)) \<Longrightarrow> i < j"
  by (cases s) (auto simp: Plus_def split: if_splits dest: star_states_consume)

lemma captures_Sq: "captures P b \<Longrightarrow> captures P (Sq a b)"
  unfolding captures_def by auto

lemma captures_Grp:
  assumes "\<And>i s g j t h w. (j, t, h) \<in> set (rmatch a (i, s, g)) \<Longrightarrow> s = w @ t \<Longrightarrow> j = i + length w \<Longrightarrow> P w"
  shows "captures P (Grp a)"
  unfolding captures_def
proof (intro allI impI)
  fix st x
  assume x: "x \<in> set (rmatch (Grp a) st)"
  obtain i s g where st: "st = (i, s, g)" by (cases st)
  from x st obtain j t h where m: "(j, t, h) \<in> set (rmatch a (i, s, g))"
    and xe: "x = (j, t, Some (take (j - i) s))" by auto
  from rmatch_consume [OF m] obtain w where w: "s = w @ t" "j = i + length w" by blast
  from assms [OF m w] have "P w" .
  moreover from w have "take (j - i) s = w" by simp
  ultimately show "\<exists>w. snd (snd x) = Some w \<and> P w" using xe by simp
qed

lemma captures_Grp_times: "captures (\<lambda>w. length w = n) (Grp (repeat_n n (Cls c)))"
  by (rule captures_Grp) (auto dest: times_Cls_length)

lemma captures_Grp_Plus: "captures (\<lambda>w. w \<noteq> []) (Grp (Plus c))"
  by (rule captures_Grp) (auto dest: Plus_length)

lemma exec_from_suffix:
  "exec_from r i s = Some st \<Longrightarrow> \<exists>k p s'. s = p @ s' \<and> st \<in> set (rmatch r (k, s', None))"
proof (induction s arbitrary: i)
  case Nil
  then have "st \<in> set (rmatch r (i, [], None))" by (auto split: list.splits)
  then show ?case by blast
next
  case (Cons x xs)
  show ?case
  proof (cases "rmatch r (i, x # xs, None)")
    case Nil
    with Cons.prems have "exec_from r (Suc i) xs = Some st" by simp
    from Cons.IH [OF this] obtain k p s' where "xs = p @ s'" "st \<in> set (rmatch r (k, s', None))"
      by blast
    then have "x # xs = (x # p) @ s' \<and> st \<in> set (rmatch r (k, s', None))" by simp
    then show ?thesis by blast
  next
    case (Cons a as)
    with Cons.prems have "st = a" by simp
    with Cons have "x # xs = [] @ (x # xs) \<and> st \<in> set (rmatch r (i, x # xs, None))" by simp
    then show ?thesis by blast
  qed
qed

lemma exec_from_rmatch:
  "exec_from r i s = Some st \<Longrightarrow> \<exists>k s'. st \<in> set (rmatch r (k, s', None))"
  by (blast dest: exec_from_suffix)

lemma match1_captures:
  assumes "captures P r" and "re_test r u"
  shows "\<exists>w. match1 r u = Some (Some w) \<and> P w"
proof -
  from assms(2) obtain st where e: "exec r u = Some st" by (auto simp: re_test_def)
  then obtain k s' where "st \<in> set (rmatch r (k, s', None))"
    unfolding exec_def by (blast dest: exec_from_rmatch)
  with assms(1) obtain w where "snd (snd st) = Some w" "P w" unfolding captures_def by blast
  with e show ?thesis by (cases st) (auto simp: match1_def)
qed

lemma match1_no_match: "\<not> re_test r u \<Longrightarrow> match1 r u = None"
  by (cases "exec r u") (simp_all add: re_test_def match1_def)

lemma needs_Cls: "(\<And>x. c x \<Longrightarrow> P x) \<Longrightarrow> needs P (Cls c)"
  unfolding needs_def by (auto split: list.splits if_splits)

lemma needs_chr: "needs (\<lambda>x. Canonicalize x = Canonicalize c) (chr c)"
  unfolding chr_def by (rule needs_Cls)

lemma needs_Sq1:
  assumes "needs P a"
  shows "needs P (Sq a b)"
  unfolding needs_def
proof (intro allI impI)
  fix i s g j t h
  assume "(j, t, h) \<in> set (rmatch (Sq a b) (i, s, g))"
  then obtain j' t' h' where
    m1: "(j', t', h') \<in> set (rmatch a (i, s, g))" and m2: "(j, t, h) \<in> set (rmatch b (j', t', h'))"
    by auto
  from rmatch_consume [OF m1] obtain w1 where w1: "s = w1 @ t'" "j' = i + length w1" by blast
  from rmatch_consume [OF m2] obtain w2 where w2: "t' = w2 @ t" "j = j' + length w2" by blast
  from assms m1 obtain x where "x \<in> set (take (j' - i) s)" "P x" unfolding needs_def by blast
  with w1 w2 show "\<exists>x \<in> set (take (j - i) s). P x" by auto
qed

lemma needs_Sq2:
  assumes "needs P b"
  shows "needs P (Sq a b)"
  unfolding needs_def
proof (intro allI impI)
  fix i s g j t h
  assume "(j, t, h) \<in> set (rmatch (Sq a b) (i, s, g))"
  then obtain j' t' h' where
    m1: "(j', t', h') \<in> set (rmatch a (i, s, g))" and m2: "(j, t, h) \<in> set (rmatch b (j', t', h'))"
    by auto
  from rmatch_consume [OF m1] obtain w1 where w1: "s = w1 @ t'" "j' = i + length w1" by blast
  from rmatch_consume [OF m2] obtain w2 where w2: "t' = w2 @ t" "j = j' + length w2" by blast
  from assms m2 obtain x where "x \<in> set (take (j - j') t')" "P x" unfolding needs_def by blast
  with w1 w2 show "\<exists>x \<in> set (take (j - i) s). P x" by auto
qed

lemma needs_Alt:
  assumes "needs P a" and "needs P b"
  shows "needs P (Alt a b)"
  unfolding needs_def
proof (intro allI impI)
  fix i s g j t h
  assume "(j, t, h) \<in> set (rmatch (Alt a b) (i, s, g))"
  then have "(j, t, h) \<in> set (rmatch a (i, s, g)) \<or> (j, t, h) \<in> set (rmatch b (i, s, g))"
    by auto
  with assms show "\<exists>x \<in> set (take (j - i) s). P x" unfolding needs_def by blast
qed

lemma needs_seq:
  assumes "r \<in> set rs" and "needs P r"
  shows "needs P (seq rs)"
  using assms(1)
proof (induction rs rule: seq.induct)
  case 1
  then show ?case by simp
next
  case (2 a)
  with assms(2) show ?case by simp
next
  case (3 a b rs)
  show ?case
  proof (cases "r = a")
    case True
    with assms(2) show ?thesis by (simp add: needs_Sq1)
  next
    case False
    with 3 show ?thesis by (simp add: needs_Sq2)
  qed
qed

lemma needs_str:
  assumes "c \<in> set cs"
  shows "needs (\<lambda>x. Canonicalize x = Canonicalize c) (str cs)"
  unfolding str_def
proof (rule needs_seq)
  from assms show "chr c \<in> set (map chr cs)" by simp
  show "needs (\<lambda>x. Canonicalize x = Canonicalize c) (chr c)" by (rule needs_chr)
qed

lemma needs_test:
  assumes "needs P r" and "re_test r u"
  shows "\<exists>x \<in> set u. P x"
proof -
  from assms(2) obtain st where "exec_from r 0 u = Some st" by (auto simp: re_test_def exec_def)
  from exec_from_suffix [OF this] obtain k p s' where
    u: "u = p @ s'" and m: "st \<in> set (rmatch r (k, s', None))" by blast
  obtain j t h where st: "st = (j, t, h)" by (cases st)
  with assms(1) m obtain x where "x \<in> set (take (j - k) s')" "P x" unfolding needs_def by blast
  then have "x \<in> set s'" by (auto dest: in_set_takeD)
  with u \<open>P x\<close> show ?thesis by auto
qed

lemma needs_any_test:
  assumes "\<And>r. r \<in> set rs \<Longrightarrow> needs P r" and "any_test rs u"
  shows "\<exists>x \<in> set u. P x"
  using assms
proof (induction rs)
  case Nil
  then show ?case by simp
next
  case (Cons r rs)
  show ?case
  proof (cases "re_test r u")
    case True
    moreover have "needs P r" by (rule Cons.prems(1)) simp
    ultimately show ?thesis by (blast dest: needs_test)
  next
    case False
    with Cons.prems(2) have "any_test rs u" by simp
    moreover have "\<And>q. q \<in> set rs \<Longrightarrow> needs P q" by (rule Cons.prems(1)) simp
    ultimately show ?thesis by (rule Cons.IH [rotated])
  qed
qed

section \<open>The classes under the i flag\<close>

text \<open>
  Under the \<open>i\<close> flag a class matches a character when some member of the class has the
  same \<open>Canonicalize\<close>; a negated class matches when no member has. For the classes of the
  table this is membership, so the patterns are written with the membership tests.
\<close>

lemma code_less: "code x < 256"
  by (simp add: code_def)

lemma code_inj: "code a = code b \<Longrightarrow> a = b"
  by (simp add: code_def)

lemma Canonicalize_cases:
  "Canonicalize x = code x
   \<or> (Canonicalize x = code x - 32 \<and> ((97 \<le> code x \<and> code x \<le> 122) \<or> (224 \<le> code x \<and> code x \<le> 254)))
   \<or> Canonicalize x = 924 \<or> Canonicalize x = 376"
  by (auto simp: Canonicalize_def Let_def)

lemma literal_only:
  assumes "code c < 65 \<or> (90 < code c \<and> code c < 97) \<or> (122 < code c \<and> code c < 128)"
  shows "(Canonicalize x = Canonicalize c) = (x = c)"
proof
  assume e: "Canonicalize x = Canonicalize c"
  from assms have "Canonicalize c = code c" by (auto simp: Canonicalize_def Let_def)
  with e assms code_less [of x] have "code x = code c"
    by (auto simp: Canonicalize_def Let_def split: if_splits)
  then show "x = c" by (rule code_inj)
next
  assume "x = c"
  then show "Canonicalize x = Canonicalize c" by simp
qed

lemma digit_closed: "(\<exists>a. digit a \<and> Canonicalize a = Canonicalize x) = digit x"
proof
  assume "\<exists>a. digit a \<and> Canonicalize a = Canonicalize x"
  then obtain a where a: "digit a" "Canonicalize a = Canonicalize x" by blast
  then have "Canonicalize a = code a" by (auto simp: Canonicalize_def Let_def digit_def)
  with a Canonicalize_cases [of x] code_less [of x] show "digit x"
    by (auto simp: digit_def Canonicalize_def Let_def split: if_splits)
next
  assume "digit x"
  then show "\<exists>a. digit a \<and> Canonicalize a = Canonicalize x" by blast
qed

lemma alnum_closed: "(\<exists>a. alnum a \<and> Canonicalize a = Canonicalize x) = alnum x"
proof
  assume "\<exists>a. alnum a \<and> Canonicalize a = Canonicalize x"
  then obtain a where a: "alnum a" "Canonicalize a = Canonicalize x" by blast
  then have "(48 \<le> Canonicalize a \<and> Canonicalize a \<le> 57) \<or> (65 \<le> Canonicalize a \<and> Canonicalize a \<le> 90)"
    by (auto simp: Canonicalize_def Let_def alnum_def)
  with a(2) code_less [of x] show "alnum x"
    by (auto simp: alnum_def Canonicalize_def Let_def split: if_splits)
next
  assume "alnum x"
  then show "\<exists>a. alnum a \<and> Canonicalize a = Canonicalize x" by blast
qed

lemma id_char_closed: "(\<exists>a. id_char a \<and> Canonicalize a = Canonicalize x) = id_char x"
proof
  assume "\<exists>a. id_char a \<and> Canonicalize a = Canonicalize x"
  then obtain a where a: "id_char a" "Canonicalize a = Canonicalize x" by blast
  have u: "(Canonicalize x = Canonicalize CHR ''_'') = (x = CHR ''_'')"
    and h: "(Canonicalize x = Canonicalize CHR ''-'') = (x = CHR ''-'')"
    by (rule literal_only, simp add: code_def)+
  from a(1) consider "alnum a" | "a = CHR ''_''" | "a = CHR ''-''" by (auto simp: id_char_def)
  then show "id_char x"
  proof cases
    case 1
    with a(2) alnum_closed [of x] show ?thesis by (auto simp: id_char_def)
  next
    case 2
    with a(2) u show ?thesis by (simp add: id_char_def)
  next
    case 3
    with a(2) h show ?thesis by (simp add: id_char_def)
  qed
next
  assume "id_char x"
  then show "\<exists>a. id_char a \<and> Canonicalize a = Canonicalize x" by blast
qed

lemma space_canon: "is_space a \<Longrightarrow> Canonicalize a = code a"
  by (auto simp: is_space_def Canonicalize_def Let_def)

lemma space_closed: "(\<exists>a. is_space a \<and> Canonicalize a = Canonicalize x) = is_space x"
proof
  assume "\<exists>a. is_space a \<and> Canonicalize a = Canonicalize x"
  then obtain a where a: "is_space a" "Canonicalize a = Canonicalize x" by blast
  with space_canon [of a] code_less [of x] show "is_space x"
    by (auto simp: is_space_def Canonicalize_def Let_def split: if_splits)
next
  assume "is_space x"
  then show "\<exists>a. is_space a \<and> Canonicalize a = Canonicalize x" by blast
qed

lemma dot_closed: "(\<exists>a. dot a \<and> Canonicalize a = Canonicalize x) = dot x"
proof
  assume "\<exists>a. dot a \<and> Canonicalize a = Canonicalize x"
  then obtain a where a: "dot a" "Canonicalize a = Canonicalize x" by blast
  show "dot x"
  proof (rule ccontr)
    assume "\<not> dot x"
    then have x: "code x = 10 \<or> code x = 13" by (simp add: dot_def)
    then have "Canonicalize x = code x" by (auto simp: Canonicalize_def Let_def)
    with a(2) x code_less [of a] have "code a = 10 \<or> code a = 13"
      by (auto simp: Canonicalize_def Let_def split: if_splits)
    with a(1) show False by (simp add: dot_def)
  qed
next
  assume "dot x"
  then show "\<exists>a. dot a \<and> Canonicalize a = Canonicalize x" by blast
qed

lemma not_slash_closed: "(\<not> (\<exists>a. a = CHR ''/'' \<and> Canonicalize a = Canonicalize x)) = not_slash x"
  using literal_only [of "CHR ''/''" x] by (auto simp: not_slash_def code_def)

lemma yt_char_closed:
  "(\<not> (\<exists>a. (a = CHR 0x22 \<or> a = CHR ''&'' \<or> a = CHR ''?'' \<or> a = CHR ''/'' \<or> is_space a)
           \<and> Canonicalize a = Canonicalize x)) = yt_char x"
proof -
  have q: "(Canonicalize x = Canonicalize (CHR 0x22)) = (x = CHR 0x22)"
    and a: "(Canonicalize x = Canonicalize CHR ''&'') = (x = CHR ''&'')"
    and m: "(Canonicalize x = Canonicalize CHR ''?'') = (x = CHR ''?'')"
    and s: "(Canonicalize x = Canonicalize CHR ''/'') = (x = CHR ''/'')"
    by (rule literal_only, simp add: code_def)+
  have "(\<exists>a. (a = CHR 0x22 \<or> a = CHR ''&'' \<or> a = CHR ''?'' \<or> a = CHR ''/'' \<or> is_space a)
           \<and> Canonicalize a = Canonicalize x)
        = (x = CHR 0x22 \<or> x = CHR ''&'' \<or> x = CHR ''?'' \<or> x = CHR ''/''
            \<or> (\<exists>a. is_space a \<and> Canonicalize a = Canonicalize x))"
    using q a m s by (metis (no_types))
  then show ?thesis by (simp add: space_closed yt_char_def)
qed

lemma query_sep_closed:
  "(\<exists>a. (a = CHR ''?'' \<or> a = CHR ''&'') \<and> Canonicalize a = Canonicalize x)
     = (x = CHR ''?'' \<or> x = CHR ''&'')"
proof -
  have m: "(Canonicalize x = Canonicalize CHR ''?'') = (x = CHR ''?'')"
    and a: "(Canonicalize x = Canonicalize CHR ''&'') = (x = CHR ''&'')"
    by (rule literal_only, simp add: code_def)+
  then show ?thesis by (metis (no_types))
qed

section \<open>The pattern table\<close>

lemma youtube_captures: "r \<in> set youtube_patterns \<Longrightarrow> captures (\<lambda>w. length w = 11) r"
  by (auto simp: youtube_patterns_def intro!: captures_Sq captures_Grp_times)

lemma other_captures:
  "r \<in> set instagram_patterns \<union> set tiktok_patterns \<union> set linkedin_patterns \<union> set twitter_patterns
     \<Longrightarrow> captures (\<lambda>w. w \<noteq> []) r"
  by (auto simp: instagram_patterns_def tiktok_patterns_def linkedin_patterns_def
        twitter_patterns_def intro!: captures_Sq captures_Grp_Plus)

lemma first_id_first_group:
  assumes "\<And>r. r \<in> set rs \<Longrightarrow> captures P r" and "\<And>w. P w \<Longrightarrow> w \<noteq> []" and "any_test rs u"
  shows "\<exists>w. first_group rs u = Some (Some w) \<and> first_id rs u = Some w \<and> P w"
  using assms
proof (induction rs)
  case Nil
  then show ?case by simp
next
  case (Cons r rs)
  show ?case
  proof (cases "re_test r u")
    case True
    have "captures P r" by (rule Cons.prems(1)) simp
    from match1_captures [OF this True] obtain w where w: "match1 r u = Some (Some w)" "P w"
      by blast
    with Cons.prems(2) have "w \<noteq> []" by blast
    with w True show ?thesis by simp
  next
    case False
    with Cons.prems(3) have a: "any_test rs u" by simp
    have "\<exists>w. first_group rs u = Some (Some w) \<and> first_id rs u = Some w \<and> P w"
      by (rule Cons.IH) (use Cons.prems a in auto)
    with False show ?thesis by (simp add: match1_no_match)
  qed
qed

lemma only_id_first_group:
  assumes "captures P r" and "any_test [r] u"
  shows "\<exists>w. first_group [r] u = Some (Some w) \<and> only_id r u = Some w \<and> P w"
proof -
  from assms(2) have t: "re_test r u" by (simp split: if_splits)
  from match1_captures [OF assms(1) t] obtain w where "match1 r u = Some (Some w)" "P w" by blast
  with t show ?thesis by (simp add: only_id_def)
qed

lemma detect_youtube: "(detectPlatform u = Youtube) = any_test youtube_patterns u"
  by (simp add: detectPlatform_def PLATFORM_PATTERNS_def)

lemma detect_instagram:
  "(detectPlatform u = Instagram) = (\<not> any_test youtube_patterns u \<and> any_test instagram_patterns u)"
  by (simp add: detectPlatform_def PLATFORM_PATTERNS_def)

lemma detect_tiktok:
  "(detectPlatform u = Tiktok) = (\<not> any_test youtube_patterns u \<and> \<not> any_test instagram_patterns u
      \<and> any_test tiktok_patterns u)"
  by (simp add: detectPlatform_def PLATFORM_PATTERNS_def)

lemma detect_linkedin:
  "(detectPlatform u = Linkedin) = (\<not> any_test youtube_patterns u \<and> \<not> any_test instagram_patterns u
      \<and> \<not> any_test tiktok_patterns u \<and> any_test linkedin_patterns u)"
  by (simp add: detectPlatform_def PLATFORM_PATTERNS_def)

lemma detect_twitter:
  "(detectPlatform u = Twitter) = (\<not> any_test youtube_patterns u \<and> \<not> any_test instagram_patterns u
      \<and> \<not> any_test tiktok_patterns u \<and> \<not> any_test linkedin_patterns u \<and> any_test twitter_patterns u)"
  by (simp add: detectPlatform_def PLATFORM_PATTERNS_def)

lemma youtube_id:
  assumes "any_test youtube_patterns u"
  shows "\<exists>w. first_group youtube_patterns u = Some (Some w) \<and> extractYouTubeVideoId u = Some w
            \<and> length w = 11"
  unfolding extractYouTubeVideoId_def
  by (rule first_id_first_group [where P = "\<lambda>w. length w = 11"])
     (use assms in \<open>auto intro: youtube_captures\<close>)

lemma tiktok_id:
  assumes "any_test tiktok_patterns u"
  shows "\<exists>w. first_group tiktok_patterns u = Some (Some w) \<and> extractTikTokVideoId u = Some w \<and> w \<noteq> []"
  unfolding extractTikTokVideoId_def
  by (rule first_id_first_group [where P = "\<lambda>w. w \<noteq> []"])
     (use assms in \<open>auto intro: other_captures\<close>)

lemma linkedin_id:
  assumes "any_test linkedin_patterns u"
  shows "\<exists>w. first_group linkedin_patterns u = Some (Some w) \<and> extractLinkedInPostId u = Some w \<and> w \<noteq> []"
  unfolding extractLinkedInPostId_def
  by (rule first_id_first_group [where P = "\<lambda>w. w \<noteq> []"])
     (use assms in \<open>auto intro: other_captures\<close>)

lemma instagram_single: "instagram_patterns = [instagram_patterns ! 0]"
  by (simp add: instagram_patterns_def)

lemma twitter_single: "twitter_patterns = [twitter_patterns ! 0]"
  by (simp add: twitter_patterns_def)

lemma instagram_id:
  assumes "any_test instagram_patterns u"
  shows "\<exists>w. first_group instagram_patterns u = Some (Some w) \<and> extractInstagramPostId u = Some w \<and> w \<noteq> []"
proof -
  have c: "captures (\<lambda>w. w \<noteq> []) (instagram_patterns ! 0)"
    by (rule other_captures) (simp add: instagram_patterns_def)
  from assms have a: "any_test [instagram_patterns ! 0] u" using instagram_single by metis
  from only_id_first_group [OF c a] show ?thesis
    unfolding extractInstagramPostId_def using instagram_single by metis
qed

lemma twitter_id:
  assumes "any_test twitter_patterns u"
  shows "\<exists>w. first_group twitter_patterns u = Some (Some w) \<and> extractTwitterTweetId u = Some w \<and> w \<noteq> []"
proof -
  have c: "captures (\<lambda>w. w \<noteq> []) (twitter_patterns ! 0)"
    by (rule other_captures) (simp add: twitter_patterns_def)
  from assms have a: "any_test [twitter_patterns ! 0] u" using twitter_single by metis
  from only_id_first_group [OF c a] show ?thesis
    unfolding extractTwitterTweetId_def using twitter_single by metis
qed

lemma youtube_needs:
  assumes "r \<in> set youtube_patterns"
  shows "needs (\<lambda>x. Canonicalize x = Canonicalize CHR ''y'') r"
proof -
  let ?P = "\<lambda>x. Canonicalize x = Canonicalize CHR ''y''"
  have a: "needs ?P (str ''youtube.com/'')" and b: "needs ?P (str ''youtu.be/'')"
    and c: "needs ?P (str ''youtube.com/shorts/'')"
    by (rule needs_str, simp)+
  have "needs ?P (seq [str ''youtube.com/'', youtube_com_paths])"
    by (rule needs_seq [OF _ a]) simp
  from needs_Alt [OF this b] have "needs ?P (youtube_patterns ! 0)"
    unfolding youtube_patterns_def nth_Cons_0
    by (rule needs_seq [rotated]) simp
  moreover have "needs ?P (youtube_patterns ! 1)"
    unfolding youtube_patterns_def One_nat_def nth_Cons_Suc nth_Cons_0
    by (rule needs_seq [OF _ c]) simp
  moreover from assms have "r = youtube_patterns ! 0 \<or> r = youtube_patterns ! 1"
    by (simp add: youtube_patterns_def del: seq.simps)
  ultimately show ?thesis by blast
qed

lemma instagram_needs:
  assumes "r \<in> set instagram_patterns"
  shows "needs (\<lambda>x. Canonicalize x = Canonicalize CHR ''g'') r"
proof -
  let ?P = "\<lambda>x. Canonicalize x = Canonicalize CHR ''g''"
  have a: "needs ?P (str ''instagram.com/'')" by (rule needs_str) simp
  have "needs ?P (instagram_patterns ! 0)"
    unfolding instagram_patterns_def nth_Cons_0
    by (rule needs_seq [OF _ a]) simp
  moreover from assms have "r = instagram_patterns ! 0"
    by (simp add: instagram_patterns_def del: seq.simps)
  ultimately show ?thesis by blast
qed

lemma tiktok_needs:
  assumes "r \<in> set tiktok_patterns"
  shows "needs (\<lambda>x. Canonicalize x = Canonicalize CHR ''v'') r"
proof -
  let ?P = "\<lambda>x. Canonicalize x = Canonicalize CHR ''v''"
  have a: "needs ?P (str ''/video/'')" and b: "needs ?P (str ''vm.tiktok.com/'')"
    by (rule needs_str, simp)+
  have "needs ?P (tiktok_patterns ! 0)"
    unfolding tiktok_patterns_def nth_Cons_0
    by (rule needs_seq [OF _ a]) simp
  moreover have "needs ?P (tiktok_patterns ! 1)"
    unfolding tiktok_patterns_def One_nat_def nth_Cons_Suc nth_Cons_0
    by (rule needs_seq [OF _ b]) simp
  moreover from assms have "r = tiktok_patterns ! 0 \<or> r = tiktok_patterns ! 1"
    by (simp add: tiktok_patterns_def del: seq.simps)
  ultimately show ?thesis by blast
qed

lemma linkedin_needs:
  assumes "r \<in> set linkedin_patterns"
  shows "needs (\<lambda>x. Canonicalize x = Canonicalize CHR ''k'') r"
proof -
  let ?P = "\<lambda>x. Canonicalize x = Canonicalize CHR ''k''"
  have a: "needs ?P (str ''linkedin.com/posts/'')" and b: "needs ?P (str ''linkedin.com/pulse/'')"
    by (rule needs_str, simp)+
  have "needs ?P (linkedin_patterns ! 0)"
    unfolding linkedin_patterns_def nth_Cons_0
    by (rule needs_seq [OF _ a]) simp
  moreover have "needs ?P (linkedin_patterns ! 1)"
    unfolding linkedin_patterns_def One_nat_def nth_Cons_Suc nth_Cons_0
    by (rule needs_seq [OF _ b]) simp
  moreover from assms have "r = linkedin_patterns ! 0 \<or> r = linkedin_patterns ! 1"
    by (simp add: linkedin_patterns_def del: seq.simps)
  ultimately show ?thesis by blast
qed

lemma no_char:
  assumes "any_test rs u" and "\<And>r. r \<in> set rs \<Longrightarrow> needs (\<lambda>x. Canonicalize x = n) r"
  shows "n \<in> set (map Canonicalize u)"
  using needs_any_test [OF assms(2) assms(1)] by auto

lemma exec_from_later:
  "rmatch r (i + length p, s, None) \<noteq> [] \<Longrightarrow> exec_from r i (p @ s) \<noteq> None"
proof (induction p arbitrary: i)
  case Nil
  then show ?case by (cases s) (auto split: list.splits)
next
  case (Cons x p)
  then have "exec_from r (Suc i) (p @ s) \<noteq> None" by simp
  then show ?case by (auto split: list.splits)
qed

lemma re_test_later: "rmatch r (length p, s, None) \<noteq> [] \<Longrightarrow> re_test r (p @ s)"
  using exec_from_later [of r 0 p s] by (simp add: re_test_def exec_def)

section \<open>Requests and results of the extractors\<close>

lemma extractOpenGraph_requests:
  "requests (snd (extractOpenGraph api u w)) = requests w @ [GetPage u]"
  by (simp add: extractOpenGraph_def fetch_page_def split: option.splits)


lemma extractTwitterCards_requests:
  "requests (snd (extractTwitterCards api u w)) = requests w @ [GetPage u]"
  by (simp add: extractTwitterCards_def fetch_page_def split: option.splits)

lemma extractTwitterCards_page: "page (snd (extractTwitterCards api u w)) = page w"
  by (simp add: extractTwitterCards_def fetch_page_def split: option.splits)







lemma extractBasicMetadata_Inr: "\<exists>m. fst (extractBasicMetadata api u w) = Inr m"
  by (simp add: extractBasicMetadata_def split: prod.splits)

lemma extractBasicMetadata_requests:
  "requests (snd (extractBasicMetadata api u w)) = requests w @ [GetPage u]
   \<or> requests (snd (extractBasicMetadata api u w)) = requests w @ [GetPage u, GetPage u]"
proof -
  obtain og w1 where og: "extractOpenGraph api u w = (og, w1)" by (cases "extractOpenGraph api u w")
  then have r1: "requests w1 = requests w @ [GetPage u]"
    using extractOpenGraph_requests [of api u w] by simp
  obtain tw w2 where tw: "extractTwitterCards api u w1 = (tw, w2)"
    by (cases "extractTwitterCards api u w1")
  then have r2: "requests w2 = requests w1 @ [GetPage u]"
    using extractTwitterCards_requests [of api u w1] by simp
  from og tw r1 r2 show ?thesis by (simp add: extractBasicMetadata_def)
qed

lemma GenericParser_Inr: "\<exists>m. fst (GenericParser_extractMetadata api u w) = Inr m"
  by (simp add: GenericParser_extractMetadata_def split: prod.splits sum.splits)

lemma GenericParser_unfold:
  "\<exists>m0 w'. extractBasicMetadata api u w = (Inr m0, w')
      \<and> GenericParser_extractMetadata api u w
          = (Inr (m0\<lparr> md_platform := Some Generic, md_provider := Some (generic_provider api u) \<rparr>), w')"
proof -
  from extractBasicMetadata_Inr [of api u w] obtain m0 w' where
    "extractBasicMetadata api u w = (Inr m0, w')"
    by (cases "extractBasicMetadata api u w") auto
  then show ?thesis by (simp add: GenericParser_extractMetadata_def)
qed

lemma GenericParser_requests:
  "requests (snd (GenericParser_extractMetadata api u w)) = requests w @ [GetPage u]
   \<or> requests (snd (GenericParser_extractMetadata api u w)) = requests w @ [GetPage u, GetPage u]"
proof -
  have "snd (GenericParser_extractMetadata api u w) = snd (extractBasicMetadata api u w)"
    by (simp add: GenericParser_extractMetadata_def split: prod.splits sum.splits)
  with extractBasicMetadata_requests [of api u w] show ?thesis by simp
qed

lemma YouTubeParser_requests:
  "(\<exists>e. YouTubeParser_extractMetadata u w = (Inl e, w))
   \<or> (\<exists>m. fst (YouTubeParser_extractMetadata u w) = Inr m
         \<and> requests (snd (YouTubeParser_extractMetadata u w)) = requests w @ [GetOEmbed u])"
  by (simp add: YouTubeParser_extractMetadata_def fetchOEmbedData_def fetch_oembed_def
        split: option.splits oembed_response.splits)


section \<open>The required properties and the type of a record\<close>

lemma required_domain_only: "has_required (domain_only api u)"
  by (simp add: has_required_def domain_only_def no_metadata_def)

lemma openGraph_of_fields:
  assumes "openGraph_of api u d = Some m"
  shows "md_platform m = Some Generic \<and> md_url m = Some u
       \<and> md_type m = Some (case when_truthy (extractMetaContent d [''og:type''])
                                   (\<lambda>t. og_type_switch (toLowerCase t)) of
                              Some t \<Rightarrow> t | None \<Rightarrow> Link)"
proof -
  obtain img where "absolute_image api u (or_else (extractMetaContent d
                       [''og:image'', ''twitter:image'', ''twitter:image:src'']) None) = Some img"
    using assms unfolding openGraph_of_def Let_def by (auto split: option.split_asm simp del: extractMetaContent.simps)
  with assms show ?thesis
    unfolding openGraph_of_def Let_def
    by (auto simp add: no_metadata_def simp del: extractMetaContent.simps)
qed

lemma required_openGraph_of: "openGraph_of api u d = Some m \<Longrightarrow> has_required m"
  by (simp add: has_required_def openGraph_of_fields)

lemma required_extractOpenGraph: "has_required (fst (extractOpenGraph api u w))"
  by (auto simp: extractOpenGraph_def required_domain_only required_openGraph_of
        split: prod.splits option.splits)

lemma required_merge: "has_required (merge_metadata api u og tw)"
  by (simp add: has_required_def merge_metadata_def no_metadata_def)

lemma required_extractBasicMetadata:
  assumes "extractBasicMetadata api u w = (Inr m, w')"
  shows "has_required m"
proof -
  obtain og w1 where og: "extractOpenGraph api u w = (og, w1)" by (cases "extractOpenGraph api u w")
  with required_extractOpenGraph [of api u w] have r: "has_required og" by simp
  obtain tw w2 where tw: "extractTwitterCards api u w1 = (tw, w2)"
    by (cases "extractTwitterCards api u w1")
  from assms og tw have "m = og \<or> m = merge_metadata api u og tw"
    by (auto simp: extractBasicMetadata_def split: if_splits)
  with r required_merge show ?thesis by auto
qed

lemma required_generic:
  assumes "fst (GenericParser_extractMetadata api u w) = Inr m"
  shows "has_required m"
proof -
  from GenericParser_unfold [of api u w] obtain m0 w' where
    b: "extractBasicMetadata api u w = (Inr m0, w')"
    and g: "GenericParser_extractMetadata api u w
          = (Inr (m0\<lparr> md_platform := Some Generic, md_provider := Some (generic_provider api u) \<rparr>), w')"
    by blast
  from required_extractBasicMetadata [OF b] have "has_required m0" .
  with assms g show ?thesis by (auto simp: has_required_def)
qed

lemma required_youtube:
  assumes "fst (YouTubeParser_extractMetadata u w) = Inr m"
  shows "has_required m"
proof -
  have a: "\<And>v d. has_required (youtube_from_oembed v u d)"
    by (simp add: has_required_def youtube_from_oembed_def no_metadata_def)
  have b: "\<And>v. has_required (extractBasicVideoInfo v u)"
    by (simp add: has_required_def extractBasicVideoInfo_def no_metadata_def)
  from assms have "(\<exists>v d. m = youtube_from_oembed v u d) \<or> (\<exists>v. m = extractBasicVideoInfo v u)"
    by (auto simp: YouTubeParser_extractMetadata_def split: prod.splits option.splits if_splits)
  with a b show ?thesis by auto
qed

lemma required_update_url: "has_required m \<Longrightarrow> has_required (m\<lparr> md_url := Some x \<rparr>)"
  by (simp add: has_required_def)




section \<open>The service with its two parsers\<close>

lemma findParser_service:
  "findParser (service_parsers api) u
     = Some (if detectPlatform u = Youtube then YouTubeParser else GenericParser api)"
  by (simp add: service_parsers_def YouTubeParser_def GenericParser_def)

lemma service_youtube:
  assumes "isValidUrl api u" and "detectPlatform (normalizeUrl api u) = Youtube"
  shows "EmbedService_extractMetadata api (service_parsers api) u w
     = (case YouTubeParser_extractMetadata (normalizeUrl api u) w of
          (Inr m, w') \<Rightarrow> (Inr (m\<lparr>md_url := Some (normalizeUrl api u)\<rparr>), w')
        | (Inl e, w') \<Rightarrow> GenericParser_extractMetadata api (normalizeUrl api u) w')"
  using assms
  by (simp add: EmbedService_extractMetadata_def findParser_service Let_def
        YouTubeParser_def GenericParser_def split: prod.splits sum.splits)

lemma service_generic:
  assumes "isValidUrl api u" and "detectPlatform (normalizeUrl api u) \<noteq> Youtube"
  shows "EmbedService_extractMetadata api (service_parsers api) u w
     = (case GenericParser_extractMetadata api (normalizeUrl api u) w of
          (Inr m, w') \<Rightarrow> (Inr (m\<lparr>md_url := Some (normalizeUrl api u)\<rparr>), w')
        | (Inl e, w') \<Rightarrow> (Inl e, w'))"
  using assms
  by (simp add: EmbedService_extractMetadata_def findParser_service Let_def
        GenericParser_def split: prod.splits sum.splits)

lemma service_requests_youtube:
  "\<exists>rs. requests (snd (case YouTubeParser_extractMetadata u w of
                         (Inr m, w') \<Rightarrow> (Inr (m\<lparr>md_url := Some u\<rparr>), w')
                       | (Inl e, w') \<Rightarrow> GenericParser_extractMetadata api u w'))
          = requests w @ rs \<and> actual_fetches u rs"
proof -
  from YouTubeParser_requests [of u w] show ?thesis
  proof
    assume "\<exists>e. YouTubeParser_extractMetadata u w = (Inl e, w)"
    then obtain e where e: "YouTubeParser_extractMetadata u w = (Inl e, w)" by blast
    from GenericParser_requests [of api u w] e show ?thesis
      by (auto simp: actual_fetches_def)
  next
    assume "\<exists>m. fst (YouTubeParser_extractMetadata u w) = Inr m
         \<and> requests (snd (YouTubeParser_extractMetadata u w)) = requests w @ [GetOEmbed u]"
    then obtain m where m: "fst (YouTubeParser_extractMetadata u w) = Inr m"
      and r: "requests (snd (YouTubeParser_extractMetadata u w)) = requests w @ [GetOEmbed u]"
      by blast
    obtain w' where "YouTubeParser_extractMetadata u w = (Inr m, w')"
      using m by (cases "YouTubeParser_extractMetadata u w") auto
    with r show ?thesis by (simp add: actual_fetches_def)
  qed
qed

lemma service_requests_generic:
  "\<exists>rs. requests (snd (case GenericParser_extractMetadata api u w of
                         (Inr m, w') \<Rightarrow> (Inr (m\<lparr>md_url := Some u\<rparr>), w')
                       | (Inl e, w') \<Rightarrow> (Inl e :: error + EmbedMetadata, w')))
          = requests w @ rs \<and> actual_fetches u rs"
proof -
  have "snd (case GenericParser_extractMetadata api u w of
               (Inr m, w') \<Rightarrow> (Inr (m\<lparr>md_url := Some u\<rparr>), w')
             | (Inl e, w') \<Rightarrow> (Inl e :: error + EmbedMetadata, w'))
        = snd (GenericParser_extractMetadata api u w)"
    by (simp split: prod.splits sum.splits)
  with GenericParser_requests [of api u w] show ?thesis
    by (auto simp: actual_fetches_def)
qed

lemma service_requests:
  "\<exists>rs. requests (snd (EmbedService_extractMetadata api (service_parsers api) u w))
          = requests w @ rs \<and> actual_fetches (normalizeUrl api u) rs"
proof (cases "isValidUrl api u")
  case False
  then show ?thesis by (simp add: EmbedService_extractMetadata_def actual_fetches_def)
next
  case True
  show ?thesis
  proof (cases "detectPlatform (normalizeUrl api u) = Youtube")
    case y: True
    with True service_requests_youtube [where u = "normalizeUrl api u" and w = w and api = api] show ?thesis
      by (simp add: service_youtube)
  next
    case g: False
    with True service_requests_generic [where u = "normalizeUrl api u" and w = w and api = api] show ?thesis
      by (simp add: service_generic)
  qed
qed

lemma getOEmbed_world:
  "snd (getOEmbed api ps u opts w) = snd (EmbedService_extractMetadata api ps u w)"
  by (simp add: getOEmbed_def split: prod.splits sum.splits option.splits)

lemma renderEmbed_world:
  "snd (renderEmbed api ps u ropts w) = snd (EmbedService_extractMetadata api ps u w)"
  by (simp add: renderEmbed_def split: prod.splits sum.splits option.splits)

lemma required_service:
  assumes "fst (EmbedService_extractMetadata api (service_parsers api) u w) = Inr m"
  shows "has_required m"
proof -
  from assms have v: "isValidUrl api u"
    by (auto simp: EmbedService_extractMetadata_def split: if_splits)
  let ?n = "normalizeUrl api u"
  show ?thesis
  proof (cases "detectPlatform ?n = Youtube")
    case True
    obtain r w' where y: "YouTubeParser_extractMetadata ?n w = (r, w')"
      by (cases "YouTubeParser_extractMetadata ?n w")
    show ?thesis
    proof (cases r)
      case (Inl e)
      with assms y have "fst (GenericParser_extractMetadata api ?n w') = Inr m"
        unfolding service_youtube [OF v True] by simp
      then show ?thesis by (rule required_generic)
    next
      case (Inr m0)
      with y have "has_required m0" using required_youtube [of ?n w m0] by simp
      moreover from assms y Inr have "m = m0\<lparr> md_url := Some ?n \<rparr>"
        unfolding service_youtube [OF v True] by simp
      ultimately show ?thesis by (simp add: required_update_url)
    qed
  next
    case False
    obtain r w' where g: "GenericParser_extractMetadata api ?n w = (r, w')"
      by (cases "GenericParser_extractMetadata api ?n w")
    show ?thesis
    proof (cases r)
      case (Inl e)
      with assms g show ?thesis unfolding service_generic [OF v False] by simp
    next
      case (Inr m0)
      with g have "has_required m0" using required_generic [of api ?n w m0] by simp
      moreover from assms g Inr have "m = m0\<lparr> md_url := Some ?n \<rparr>"
        unfolding service_generic [OF v False] by simp
      ultimately show ?thesis by (simp add: required_update_url)
    qed
  qed
qed

section \<open>normalizeUrl and the laws of the URL class\<close>

lemma startsWith_append: "startsWith (p @ s) p"
  by (induction p) auto

lemma http_prefixed_add_protocol: "http_prefixed (add_protocol u)"
proof (cases "http_prefixed u")
  case True
  then show ?thesis by (auto simp: add_protocol_def http_prefixed_def)
next
  case False
  then have "add_protocol u = ''https://'' @ u" by (simp add: add_protocol_def http_prefixed_def)
  moreover have "startsWith (''https://'' @ u) ''https://''" by (rule startsWith_append)
  ultimately show ?thesis by (simp add: http_prefixed_def)
qed

lemma add_protocol_prefixed: "http_prefixed s \<Longrightarrow> add_protocol s = s"
  by (auto simp: add_protocol_def http_prefixed_def)

lemma delete_all_snoc:
  "delete_all api (ps @ [p]) x = searchParams_delete api p (delete_all api ps x)"
  by (simp add: delete_all_def)

lemma delete_absorbed:
  assumes "url_laws api" and "p \<in> set ps"
  shows "searchParams_delete api p (delete_all api ps x) = delete_all api ps x"
  using assms(2)
proof (induction ps rule: rev_induct)
  case Nil
  then show ?case by simp
next
  case (snoc q qs)
  from assms(1) have idem: "\<And>a y. searchParams_delete api a (searchParams_delete api a y)
      = searchParams_delete api a y"
    and comm: "\<And>a b y. searchParams_delete api a (searchParams_delete api b y)
      = searchParams_delete api b (searchParams_delete api a y)"
    unfolding url_laws_def by blast+
  show ?case
  proof (cases "p = q")
    case True
    then show ?thesis by (simp add: delete_all_snoc idem)
  next
    case False
    with snoc.prems have "p \<in> set qs" by simp
    from snoc.IH [OF this]
    have "searchParams_delete api q (searchParams_delete api p (delete_all api qs x))
          = searchParams_delete api q (delete_all api qs x)" by simp
    then show ?thesis by (simp add: delete_all_snoc comm [of p q])
  qed
qed

lemma delete_all_absorbed:
  assumes "url_laws api" and "set qs \<subseteq> set ps"
  shows "delete_all api qs (delete_all api ps x) = delete_all api ps x"
  using assms(2)
proof (induction qs rule: rev_induct)
  case Nil
  then show ?case by (simp add: delete_all_def)
next
  case (snoc q qs)
  then have "q \<in> set ps" and "set qs \<subseteq> set ps" by auto
  with snoc.IH delete_absorbed [OF assms(1)] show ?case by (simp add: delete_all_snoc)
qed

lemma delete_all_prefixed:
  assumes "url_laws api"
  shows "http_prefixed (toString api (delete_all api ps x)) = http_prefixed (toString api x)"
proof (induction ps rule: rev_induct)
  case Nil
  then show ?case by (simp add: delete_all_def)
next
  case (snoc q qs)
  from assms have "\<And>p y. http_prefixed (toString api (searchParams_delete api p y))
      = http_prefixed (toString api y)"
    unfolding url_laws_def by blast
  with snoc show ?case by (simp add: delete_all_snoc)
qed

section \<open>The sample inputs\<close>

lemma sample_api_laws: "url_laws sample_api"
  unfolding url_laws_def
proof (intro conjI allI impI)
  fix x :: sample_url
  show "URL_new sample_api (toString sample_api x) = Some x"
    by (cases x) (simp_all add: sample_api_def sample_parse_def sample_href_def)
next
  fix p and x :: sample_url
  show "searchParams_delete sample_api p (searchParams_delete sample_api p x)
        = searchParams_delete sample_api p x"
    by (simp add: sample_api_def)
next
  fix p q and x :: sample_url
  show "searchParams_delete sample_api p (searchParams_delete sample_api q x)
        = searchParams_delete sample_api q (searchParams_delete sample_api p x)"
    by (cases x) (auto simp: sample_api_def)
next
  fix s and x :: sample_url
  show "http_prefixed (toString sample_api x)"
    by (cases x) (simp_all add: sample_api_def sample_href_def http_prefixed_def)
next
  fix p and x :: sample_url
  have "\<And>y :: sample_url. http_prefixed (sample_href y)"
    subgoal for y by (cases y) (simp_all add: sample_href_def http_prefixed_def) done
  then show "http_prefixed (toString sample_api (searchParams_delete sample_api p x))
        = http_prefixed (toString sample_api x)"
    by (simp add: sample_api_def)
qed

lemma sample_normalize_post:
  "normalizeUrl sample_api ''https://www.example.com/post'' = ''https://www.example.com/post''"
  by (simp add: normalizeUrl_def add_protocol_def sample_api_def sample_parse_def sample_href_def
        delete_all_def trackingParams_def)

lemma sample_valid_post: "isValidUrl sample_api ''https://www.example.com/post''"
  by (simp add: isValidUrl_def sample_api_def sample_parse_def sample_href_def)



lemma sample_not_youtube: "detectPlatform ''https://www.example.com/post'' \<noteq> Youtube"
proof
  assume "detectPlatform ''https://www.example.com/post'' = Youtube"
  then have "any_test youtube_patterns ''https://www.example.com/post''" by (simp add: detect_youtube)
  from needs_any_test [OF youtube_needs this]
  have "\<exists>x \<in> set ''https://www.example.com/post''. Canonicalize x = Canonicalize CHR ''y''" by blast
  then show False by (simp add: Canonicalize_def code_def)
qed

lemma post_two_fetches:
  "requests (snd (GenericParser_extractMetadata sample_api ''https://www.example.com/post''
                    (serving title_only)))
     = [GetPage ''https://www.example.com/post'', GetPage ''https://www.example.com/post'']"
  by code_simp

lemma two_page_fetches:
  "requests (snd (EmbedService_extractMetadata sample_api (service_parsers sample_api)
                    ''https://www.example.com/post'' (serving title_only)))
     = [GetPage ''https://www.example.com/post'', GetPage ''https://www.example.com/post'']"
proof -
  have n: "detectPlatform (normalizeUrl sample_api ''https://www.example.com/post'') \<noteq> Youtube"
    using sample_not_youtube by (simp add: sample_normalize_post)
  have "snd (EmbedService_extractMetadata sample_api (service_parsers sample_api)
               ''https://www.example.com/post'' (serving title_only))
        = snd (GenericParser_extractMetadata sample_api ''https://www.example.com/post''
                 (serving title_only))"
    unfolding service_generic [OF sample_valid_post n]
    by (simp add: sample_normalize_post split: prod.splits sum.splits)
  then show ?thesis by (simp add: post_two_fetches)
qed

lemma service_post_Inr:
  "\<exists>m. fst (EmbedService_extractMetadata sample_api (service_parsers sample_api)
             ''https://www.example.com/post'' w) = Inr m"
proof -
  have n: "detectPlatform (normalizeUrl sample_api ''https://www.example.com/post'') \<noteq> Youtube"
    using sample_not_youtube by (simp add: sample_normalize_post)
  from GenericParser_unfold [of sample_api "''https://www.example.com/post''" w]
  show ?thesis
    unfolding service_generic [OF sample_valid_post n]
    by (auto simp: sample_normalize_post)
qed




lemma watch_matches:
  "any_test youtube_patterns ''https://www.youtube.com/watch?v=dQw4w9WgXcQ''"
  by code_simp

lemma watch_group:
  "first_group youtube_patterns ''https://www.youtube.com/watch?v=dQw4w9WgXcQ'' = Some (Some ''dQw4w9WgXcQ'')"
  by code_simp

lemma short_matches: "any_test youtube_patterns ''https://youtu.be/dQw4w9WgXcQ''"
  by code_simp

lemma short_group:
  "first_group youtube_patterns ''https://youtu.be/dQw4w9WgXcQ'' = Some (Some ''dQw4w9WgXcQ'')"
  by code_simp

lemma short_link_Inr:
  "\<exists>m. fst (YouTubeParser_extractMetadata ''https://youtu.be/dQw4w9WgXcQ'' w) = Inr m"
proof -
  from youtube_id [OF short_matches] obtain v where
    "extractYouTubeVideoId ''https://youtu.be/dQw4w9WgXcQ'' = Some v" "length v = 11" by blast
  then show ?thesis
    by (auto simp: YouTubeParser_extractMetadata_def split: prod.splits option.splits)
qed

lemma instagram_sample_matches: "any_test instagram_patterns ''https://www.instagram.com/p/CxAb12''"
  by code_simp

lemma instagram_sample_group:
  "first_group instagram_patterns ''https://www.instagram.com/p/CxAb12'' = Some (Some ''CxAb12'')"
  by code_simp

lemma instagram_sample_no_other: "\<not> any_test youtube_patterns ''https://www.instagram.com/p/CxAb12''"
proof -
  have c: "map Canonicalize ''https://www.instagram.com/p/CxAb12''
      = [72, 84, 84, 80, 83, 58, 47, 47, 87, 87, 87, 46, 73, 78, 83, 84, 65, 71, 82, 65, 77, 46,
         67, 79, 77, 47, 80, 47, 67, 88, 65, 66, 49, 50]"
    by (simp add: Canonicalize_def code_def)
  have k: "Canonicalize CHR ''y'' = 89" by (simp add: Canonicalize_def code_def)
  show ?thesis
    using no_char [OF _ youtube_needs, where u = "''https://www.instagram.com/p/CxAb12''"]
    unfolding c k by auto
qed

lemma tiktok_sample_matches: "any_test tiktok_patterns ''https://www.tiktok.com/@user/video/7123''"
  by code_simp

lemma tiktok_sample_group:
  "first_group tiktok_patterns ''https://www.tiktok.com/@user/video/7123'' = Some (Some ''7123'')"
  by code_simp

lemma tiktok_sample_no_other:
  "\<not> any_test youtube_patterns ''https://www.tiktok.com/@user/video/7123''
   \<and> \<not> any_test instagram_patterns ''https://www.tiktok.com/@user/video/7123''"
proof -
  have c: "map Canonicalize ''https://www.tiktok.com/@user/video/7123''
      = [72, 84, 84, 80, 83, 58, 47, 47, 87, 87, 87, 46, 84, 73, 75, 84, 79, 75, 46, 67, 79, 77,
         47, 64, 85, 83, 69, 82, 47, 86, 73, 68, 69, 79, 47, 55, 49, 50, 51]"
    by (simp add: Canonicalize_def code_def)
  have k: "Canonicalize CHR ''y'' = 89" "Canonicalize CHR ''g'' = 71"
    by (simp_all add: Canonicalize_def code_def)
  show ?thesis
    using no_char [OF _ youtube_needs, where u = "''https://www.tiktok.com/@user/video/7123''"]
      no_char [OF _ instagram_needs, where u = "''https://www.tiktok.com/@user/video/7123''"]
    unfolding c k by auto
qed

lemma linkedin_sample_matches: "any_test linkedin_patterns ''https://www.linkedin.com/posts/user/abc-123''"
  by code_simp

lemma linkedin_sample_group:
  "first_group linkedin_patterns ''https://www.linkedin.com/posts/user/abc-123'' = Some (Some ''abc-123'')"
  by code_simp

lemma linkedin_sample_no_other:
  "\<not> any_test youtube_patterns ''https://www.linkedin.com/posts/user/abc-123''
   \<and> \<not> any_test instagram_patterns ''https://www.linkedin.com/posts/user/abc-123''
   \<and> \<not> any_test tiktok_patterns ''https://www.linkedin.com/posts/user/abc-123''"
proof -
  have c: "map Canonicalize ''https://www.linkedin.com/posts/user/abc-123''
      = [72, 84, 84, 80, 83, 58, 47, 47, 87, 87, 87, 46, 76, 73, 78, 75, 69, 68, 73, 78, 46, 67,
         79, 77, 47, 80, 79, 83, 84, 83, 47, 85, 83, 69, 82, 47, 65, 66, 67, 45, 49, 50, 51]"
    by (simp add: Canonicalize_def code_def)
  have k: "Canonicalize CHR ''y'' = 89" "Canonicalize CHR ''g'' = 71" "Canonicalize CHR ''v'' = 86"
    by (simp_all add: Canonicalize_def code_def)
  show ?thesis
    using no_char [OF _ youtube_needs, where u = "''https://www.linkedin.com/posts/user/abc-123''"]
      no_char [OF _ instagram_needs, where u = "''https://www.linkedin.com/posts/user/abc-123''"]
      no_char [OF _ tiktok_needs, where u = "''https://www.linkedin.com/posts/user/abc-123''"]
    unfolding c k by auto
qed

lemma tweet_matches: "any_test twitter_patterns ''https://twitter.com/user/status/20''"
  by code_simp

lemma tweet_group:
  "first_group twitter_patterns ''https://twitter.com/user/status/20'' = Some (Some ''20'')"
  by code_simp

lemma tweet_no_other:
  "\<not> any_test youtube_patterns ''https://twitter.com/user/status/20''
   \<and> \<not> any_test instagram_patterns ''https://twitter.com/user/status/20''
   \<and> \<not> any_test tiktok_patterns ''https://twitter.com/user/status/20''
   \<and> \<not> any_test linkedin_patterns ''https://twitter.com/user/status/20''"
proof -
  have c: "map Canonicalize ''https://twitter.com/user/status/20''
      = [72, 84, 84, 80, 83, 58, 47, 47, 84, 87, 73, 84, 84, 69, 82, 46, 67, 79, 77, 47,
         85, 83, 69, 82, 47, 83, 84, 65, 84, 85, 83, 47, 50, 48]"
    by (simp add: Canonicalize_def code_def)
  have k: "Canonicalize CHR ''y'' = 89" "Canonicalize CHR ''g'' = 71"
    "Canonicalize CHR ''v'' = 86" "Canonicalize CHR ''k'' = 75"
    by (simp_all add: Canonicalize_def code_def)
  show ?thesis
    using no_char [OF _ youtube_needs, where u = "''https://twitter.com/user/status/20''"]
      no_char [OF _ instagram_needs, where u = "''https://twitter.com/user/status/20''"]
      no_char [OF _ tiktok_needs, where u = "''https://twitter.com/user/status/20''"]
      no_char [OF _ linkedin_needs, where u = "''https://twitter.com/user/status/20''"]
    unfolding c k by auto
qed

lemma shared_instagram:
  "any_test instagram_patterns ''https://www.instagram.com/p/abc/?u=youtu.be/dQw4w9WgXcQ''"
  by code_simp

lemma shared_youtube:
  "any_test youtube_patterns ''https://www.instagram.com/p/abc/?u=youtu.be/dQw4w9WgXcQ''"
proof -
  have "rmatch (youtube_patterns ! 0) (length ''https://www.instagram.com/p/abc/?u='',
           ''youtu.be/dQw4w9WgXcQ'', None) \<noteq> []"
    by code_simp
  from re_test_later [OF this] show ?thesis by (simp add: youtube_patterns_def)
qed

lemma watch_valid: "isValidUrl sample_api ''https://www.youtube.com/watch?v=dQw4w9WgXcQ''"
  by (simp add: isValidUrl_def sample_api_def sample_parse_def sample_href_def)

lemma watch_normalize:
  "normalizeUrl sample_api ''https://www.youtube.com/watch?v=dQw4w9WgXcQ''
     = ''https://www.youtube.com/watch?v=dQw4w9WgXcQ''"
  by (simp add: normalizeUrl_def add_protocol_def sample_api_def sample_parse_def sample_href_def
        delete_all_def trackingParams_def)

lemma watch_one_request:
  "requests (snd (YouTubeParser_extractMetadata ''https://www.youtube.com/watch?v=dQw4w9WgXcQ'' offline))
     = [GetOEmbed ''https://www.youtube.com/watch?v=dQw4w9WgXcQ'']"
  by code_simp

lemma watch_one_fetch:
  "requests (snd (EmbedService_extractMetadata sample_api (service_parsers sample_api)
                    ''https://www.youtube.com/watch?v=dQw4w9WgXcQ'' offline))
     = [GetOEmbed ''https://www.youtube.com/watch?v=dQw4w9WgXcQ'']"
proof -
  have y: "detectPlatform (normalizeUrl sample_api ''https://www.youtube.com/watch?v=dQw4w9WgXcQ'')
             = Youtube"
    using watch_matches by (simp add: watch_normalize detect_youtube)
  from YouTubeParser_requests [of "''https://www.youtube.com/watch?v=dQw4w9WgXcQ''" offline]
    watch_one_request
  obtain m w' where "YouTubeParser_extractMetadata ''https://www.youtube.com/watch?v=dQw4w9WgXcQ'' offline
      = (Inr m, w')"
    by (cases "YouTubeParser_extractMetadata ''https://www.youtube.com/watch?v=dQw4w9WgXcQ'' offline")
       (auto simp: offline_def)
  with watch_one_request show ?thesis
    unfolding service_youtube [OF watch_valid y] by (simp add: watch_normalize)
qed

section \<open>The claims\<close>




text \<open>
  C2. For a valid URL whose normalised form the service gives to a parser that is not the
  generic one, if that parser throws, the call is exactly one run of
  \<open>GenericParser.extractMetadata\<close> on the normalised URL, started in the world the failed
  parser left; so an error reaches the caller only when that run throws.
\<close>

theorem fallback_to_generic:
  assumes "isValidUrl api u"
    and "findParser ps (normalizeUrl api u) = Some p"
    and "\<not> isGenericParser p"
    and "extractMetadata p (normalizeUrl api u) w = (Inl e, w')"
  shows "EmbedService_extractMetadata api ps u w
           = GenericParser_extractMetadata api (normalizeUrl api u) w'
       \<and> (\<forall>e'. fst (EmbedService_extractMetadata api ps u w) = Inl e'
              \<longrightarrow> fst (GenericParser_extractMetadata api (normalizeUrl api u) w') = Inl e')"
  using assms by (simp add: EmbedService_extractMetadata_def GenericParser_def)

text \<open>
  C2 for a service whose first parser always throws.
\<close>

theorem fallback_to_generic_witness:
  "isValidUrl sample_api ''https://www.example.com/post''
   \<and> findParser [failing_parser, GenericParser sample_api]
        (normalizeUrl sample_api ''https://www.example.com/post'') = Some failing_parser
   \<and> \<not> isGenericParser failing_parser
   \<and> extractMetadata failing_parser (normalizeUrl sample_api ''https://www.example.com/post'') offline
        = (Inl (Error ''unavailable''), offline)
   \<and> EmbedService_extractMetadata sample_api [failing_parser, GenericParser sample_api]
        ''https://www.example.com/post'' offline
      = GenericParser_extractMetadata sample_api ''https://www.example.com/post'' offline"
proof -
  have f: "findParser [failing_parser, GenericParser sample_api]
        (normalizeUrl sample_api ''https://www.example.com/post'') = Some failing_parser"
    by (simp add: failing_parser_def)
  have g: "\<not> isGenericParser failing_parser" by (simp add: failing_parser_def)
  have x: "extractMetadata failing_parser (normalizeUrl sample_api ''https://www.example.com/post'') offline
        = (Inl (Error ''unavailable''), offline)"
    by (simp add: failing_parser_def)
  from fallback_to_generic [OF sample_valid_post f g x] sample_valid_post f g x
  show ?thesis by (simp add: sample_normalize_post)
qed

text \<open>
  C3, as amended. One call of \<open>extractMetadata\<close>, \<open>getOEmbed\<close> or \<open>renderEmbed\<close> of the
  service sends at most two requests, one after the other: nothing, or the oEmbed attempt
  alone, or one fetch of the page, or two fetches of the page (the OpenGraph pass, then the
  Twitter Card pass). An oEmbed attempt is never followed by a page fetch.
\<close>

theorem at_most_two_fetches:
  "(\<exists>rs. requests (snd (EmbedService_extractMetadata api (service_parsers api) u w))
            = requests w @ rs \<and> actual_fetches (normalizeUrl api u) rs \<and> length rs \<le> 2)
   \<and> (\<exists>rs. requests (snd (getOEmbed api (service_parsers api) u opts w))
            = requests w @ rs \<and> actual_fetches (normalizeUrl api u) rs \<and> length rs \<le> 2)
   \<and> (\<exists>rs. requests (snd (renderEmbed api (service_parsers api) u ropts w))
            = requests w @ rs \<and> actual_fetches (normalizeUrl api u) rs \<and> length rs \<le> 2)"
proof -
  from service_requests [of api u w] obtain rs where
    rs: "requests (snd (EmbedService_extractMetadata api (service_parsers api) u w)) = requests w @ rs"
        "actual_fetches (normalizeUrl api u) rs" by blast
  from rs(2) have "length rs \<le> 2" by (auto simp: actual_fetches_def)
  with rs show ?thesis by (auto simp: getOEmbed_world renderEmbed_world)
qed

text \<open>
  C3 at a page with a title and no description, which is fetched twice, and at a YouTube
  link, for which the oEmbed attempt is the only request.
\<close>

theorem at_most_two_fetches_witness:
  "actual_fetches (normalizeUrl sample_api ''https://www.example.com/post'')
     [GetPage ''https://www.example.com/post'', GetPage ''https://www.example.com/post'']
   \<and> actual_fetches (normalizeUrl sample_api ''https://www.youtube.com/watch?v=dQw4w9WgXcQ'')
     [GetOEmbed ''https://www.youtube.com/watch?v=dQw4w9WgXcQ'']"
proof
  from at_most_two_fetches [of sample_api "''https://www.example.com/post''" "serving title_only"]
  obtain rs where r: "requests (snd (EmbedService_extractMetadata sample_api (service_parsers sample_api)
                    ''https://www.example.com/post'' (serving title_only)))
       = requests (serving title_only) @ rs"
     and a: "actual_fetches (normalizeUrl sample_api ''https://www.example.com/post'') rs"
    by blast
  have "requests (serving title_only) = []" by (simp add: serving_def)
  with r have "rs = [GetPage ''https://www.example.com/post'', GetPage ''https://www.example.com/post'']"
    unfolding two_page_fetches by simp
  with a show "actual_fetches (normalizeUrl sample_api ''https://www.example.com/post'')
     [GetPage ''https://www.example.com/post'', GetPage ''https://www.example.com/post'']" by simp
next
  from at_most_two_fetches [of sample_api "''https://www.youtube.com/watch?v=dQw4w9WgXcQ''" offline]
  obtain rs where r: "requests (snd (EmbedService_extractMetadata sample_api (service_parsers sample_api)
                    ''https://www.youtube.com/watch?v=dQw4w9WgXcQ'' offline))
       = requests offline @ rs"
     and a: "actual_fetches (normalizeUrl sample_api ''https://www.youtube.com/watch?v=dQw4w9WgXcQ'') rs"
    by blast
  have "requests offline = []" by (simp add: offline_def)
  with r have "rs = [GetOEmbed ''https://www.youtube.com/watch?v=dQw4w9WgXcQ'']"
    unfolding watch_one_fetch by simp
  with a show "actual_fetches (normalizeUrl sample_api ''https://www.youtube.com/watch?v=dQw4w9WgXcQ'')
     [GetOEmbed ''https://www.youtube.com/watch?v=dQw4w9WgXcQ'']" by simp
qed

text \<open>
  C3 as the specification states it fails: for a page with a title and no description the
  service sends two page fetches and no oEmbed attempt, which is not "the oEmbed attempt,
  then possibly one page fetch".
\<close>

theorem two_page_fetches_unclaimed:
  "\<not> claimed_fetches (requests (snd (EmbedService_extractMetadata sample_api
        (service_parsers sample_api) ''https://www.example.com/post'' (serving title_only))))"
  by (simp add: two_page_fetches)




text \<open>
  C5, as amended. When parsing fails inside \<open>normalizeUrl\<close>, the result is the string that
  was parsed: the input itself when it starts with \<open>http://\<close> or \<open>https://\<close>, and the
  input with \<open>https://\<close> put in front otherwise.
\<close>

theorem normalizeUrl_parse_failure:
  assumes "URL_new api (add_protocol u) = None"
  shows "normalizeUrl api u = add_protocol u
       \<and> (http_prefixed u \<longrightarrow> normalizeUrl api u = u)
       \<and> (\<not> http_prefixed u \<longrightarrow> normalizeUrl api u = ''https://'' @ u)"
  using assms by (auto simp: normalizeUrl_def add_protocol_def http_prefixed_def)

text \<open>
  C5 at the input \<open>a b\<close>.
\<close>

theorem normalizeUrl_parse_failure_witness:
  "URL_new sample_api (add_protocol ''a b'') = None \<and> normalizeUrl sample_api ''a b'' = ''https://a b''"
proof -
  have h: "URL_new sample_api (add_protocol ''a b'') = None"
    by (simp add: add_protocol_def sample_api_def sample_parse_def sample_href_def)
  have "\<not> http_prefixed ''a b''" by (simp add: http_prefixed_def)
  with normalizeUrl_parse_failure [OF h] h show ?thesis by (simp add: add_protocol_def)
qed

text \<open>
  C5 as the specification states it fails: \<open>https://a b\<close> does not parse, and
  \<open>normalizeUrl\<close> returns it and not the input \<open>a b\<close>.
\<close>

theorem normalizeUrl_changes_input:
  "URL_new sample_api (add_protocol ''a b'') = None \<and> normalizeUrl sample_api ''a b'' \<noteq> ''a b''"
  by (simp add: normalizeUrl_def add_protocol_def sample_api_def sample_parse_def sample_href_def)

text \<open>
  C6 fails on the code. When the first request fails and the second is answered, the image
  of the record comes from the Twitter Card pass, which does not resolve it: the record
  holds the relative \<open>/img.png\<close>, while the OpenGraph pass over the same page resolves it
  to \<open>https://www.example.com/img.png\<close>. And the OpenGraph pass itself keeps the
  relative \<open>http-assets/img.png\<close>, since it takes every value that starts with the
  letters \<open>http\<close> for absolute.
\<close>

theorem relative_image_kept:
  "map_sum id md_image (fst (GenericParser_extractMetadata sample_api
       ''https://www.example.com/post'' (flaky card_image_page))) = Inr (Some ''/img.png'')
   \<and> URL_new sample_api ''/img.png'' = None
   \<and> map_sum id md_image (fst (GenericParser_extractMetadata sample_api
       ''https://www.example.com/post'' (serving card_image_page)))
         = Inr (Some ''https://www.example.com/img.png'')
   \<and> map_sum id md_image (fst (GenericParser_extractMetadata sample_api
       ''https://www.example.com/post'' (serving http_named_image_page)))
         = Inr (Some ''http-assets/img.png'')
   \<and> URL_new sample_api ''http-assets/img.png'' = None"
  by code_simp

text \<open>
  C7, as amended. For every URL that matches a pattern of a platform, the identifier
  extractor of that platform returns the first captured group of the first of its
  patterns that matches; and \<open>detectPlatform\<close> returns that platform when no pattern of a
  platform earlier in the order youtube, instagram, tiktok, linkedin, twitter matches the
  URL.
\<close>

theorem detect_and_extract:
  "(any_test youtube_patterns u \<longrightarrow>
      detectPlatform u = Youtube
      \<and> (\<exists>w. first_group youtube_patterns u = Some (Some w) \<and> extractYouTubeVideoId u = Some w))
   \<and> (any_test instagram_patterns u \<longrightarrow>
      (\<not> any_test youtube_patterns u \<longrightarrow> detectPlatform u = Instagram)
      \<and> (\<exists>w. first_group instagram_patterns u = Some (Some w) \<and> extractInstagramPostId u = Some w))
   \<and> (any_test tiktok_patterns u \<longrightarrow>
      (\<not> any_test youtube_patterns u \<and> \<not> any_test instagram_patterns u
         \<longrightarrow> detectPlatform u = Tiktok)
      \<and> (\<exists>w. first_group tiktok_patterns u = Some (Some w) \<and> extractTikTokVideoId u = Some w))
   \<and> (any_test linkedin_patterns u \<longrightarrow>
      (\<not> any_test youtube_patterns u \<and> \<not> any_test instagram_patterns u
         \<and> \<not> any_test tiktok_patterns u \<longrightarrow> detectPlatform u = Linkedin)
      \<and> (\<exists>w. first_group linkedin_patterns u = Some (Some w) \<and> extractLinkedInPostId u = Some w))
   \<and> (any_test twitter_patterns u \<longrightarrow>
      (\<not> any_test youtube_patterns u \<and> \<not> any_test instagram_patterns u
         \<and> \<not> any_test tiktok_patterns u \<and> \<not> any_test linkedin_patterns u
         \<longrightarrow> detectPlatform u = Twitter)
      \<and> (\<exists>w. first_group twitter_patterns u = Some (Some w) \<and> extractTwitterTweetId u = Some w))"
proof (intro conjI impI)
  assume "any_test youtube_patterns u"
  then show "detectPlatform u = Youtube" by (simp add: detect_youtube)
next
  assume "any_test youtube_patterns u"
  from youtube_id [OF this]
  show "\<exists>w. first_group youtube_patterns u = Some (Some w) \<and> extractYouTubeVideoId u = Some w"
    by blast
next
  assume "any_test instagram_patterns u" "\<not> any_test youtube_patterns u"
  then show "detectPlatform u = Instagram" by (simp add: detect_instagram)
next
  assume "any_test instagram_patterns u"
  from instagram_id [OF this]
  show "\<exists>w. first_group instagram_patterns u = Some (Some w) \<and> extractInstagramPostId u = Some w"
    by blast
next
  assume "any_test tiktok_patterns u"
    "\<not> any_test youtube_patterns u \<and> \<not> any_test instagram_patterns u"
  then show "detectPlatform u = Tiktok" by (simp add: detect_tiktok)
next
  assume "any_test tiktok_patterns u"
  from tiktok_id [OF this]
  show "\<exists>w. first_group tiktok_patterns u = Some (Some w) \<and> extractTikTokVideoId u = Some w"
    by blast
next
  assume "any_test linkedin_patterns u"
    "\<not> any_test youtube_patterns u \<and> \<not> any_test instagram_patterns u \<and> \<not> any_test tiktok_patterns u"
  then show "detectPlatform u = Linkedin" by (simp add: detect_linkedin)
next
  assume "any_test linkedin_patterns u"
  from linkedin_id [OF this]
  show "\<exists>w. first_group linkedin_patterns u = Some (Some w) \<and> extractLinkedInPostId u = Some w"
    by blast
next
  assume "any_test twitter_patterns u"
    "\<not> any_test youtube_patterns u \<and> \<not> any_test instagram_patterns u
       \<and> \<not> any_test tiktok_patterns u \<and> \<not> any_test linkedin_patterns u"
  then show "detectPlatform u = Twitter" by (simp add: detect_twitter)
next
  assume "any_test twitter_patterns u"
  from twitter_id [OF this]
  show "\<exists>w. first_group twitter_patterns u = Some (Some w) \<and> extractTwitterTweetId u = Some w"
    by blast
qed

text \<open>
  C7 at the two URLs of the specification and at one URL of each other platform.
\<close>

theorem detect_and_extract_witness:
  "any_test youtube_patterns ''https://www.youtube.com/watch?v=dQw4w9WgXcQ''
   \<and> detectPlatform ''https://www.youtube.com/watch?v=dQw4w9WgXcQ'' = Youtube
   \<and> extractYouTubeVideoId ''https://www.youtube.com/watch?v=dQw4w9WgXcQ'' = Some ''dQw4w9WgXcQ''
   \<and> any_test youtube_patterns ''https://youtu.be/dQw4w9WgXcQ''
   \<and> detectPlatform ''https://youtu.be/dQw4w9WgXcQ'' = Youtube
   \<and> extractYouTubeVideoId ''https://youtu.be/dQw4w9WgXcQ'' = Some ''dQw4w9WgXcQ''
   \<and> any_test instagram_patterns ''https://www.instagram.com/p/CxAb12''
   \<and> detectPlatform ''https://www.instagram.com/p/CxAb12'' = Instagram
   \<and> extractInstagramPostId ''https://www.instagram.com/p/CxAb12'' = Some ''CxAb12''
   \<and> any_test tiktok_patterns ''https://www.tiktok.com/@user/video/7123''
   \<and> detectPlatform ''https://www.tiktok.com/@user/video/7123'' = Tiktok
   \<and> extractTikTokVideoId ''https://www.tiktok.com/@user/video/7123'' = Some ''7123''
   \<and> any_test linkedin_patterns ''https://www.linkedin.com/posts/user/abc-123''
   \<and> detectPlatform ''https://www.linkedin.com/posts/user/abc-123'' = Linkedin
   \<and> extractLinkedInPostId ''https://www.linkedin.com/posts/user/abc-123'' = Some ''abc-123''
   \<and> any_test twitter_patterns ''https://twitter.com/user/status/20''
   \<and> detectPlatform ''https://twitter.com/user/status/20'' = Twitter
   \<and> extractTwitterTweetId ''https://twitter.com/user/status/20'' = Some ''20''"
proof -
  have "detectPlatform ''https://www.youtube.com/watch?v=dQw4w9WgXcQ'' = Youtube
        \<and> extractYouTubeVideoId ''https://www.youtube.com/watch?v=dQw4w9WgXcQ'' = Some ''dQw4w9WgXcQ''"
    using detect_and_extract [of "''https://www.youtube.com/watch?v=dQw4w9WgXcQ''"]
      watch_matches watch_group by auto
  moreover have "detectPlatform ''https://youtu.be/dQw4w9WgXcQ'' = Youtube
        \<and> extractYouTubeVideoId ''https://youtu.be/dQw4w9WgXcQ'' = Some ''dQw4w9WgXcQ''"
    using detect_and_extract [of "''https://youtu.be/dQw4w9WgXcQ''"]
      short_matches short_group by auto
  moreover have "detectPlatform ''https://www.instagram.com/p/CxAb12'' = Instagram
        \<and> extractInstagramPostId ''https://www.instagram.com/p/CxAb12'' = Some ''CxAb12''"
    using detect_and_extract [of "''https://www.instagram.com/p/CxAb12''"]
      instagram_sample_matches instagram_sample_group instagram_sample_no_other by auto
  moreover have "detectPlatform ''https://www.tiktok.com/@user/video/7123'' = Tiktok
        \<and> extractTikTokVideoId ''https://www.tiktok.com/@user/video/7123'' = Some ''7123''"
    using detect_and_extract [of "''https://www.tiktok.com/@user/video/7123''"]
      tiktok_sample_matches tiktok_sample_group tiktok_sample_no_other by auto
  moreover have "detectPlatform ''https://www.linkedin.com/posts/user/abc-123'' = Linkedin
        \<and> extractLinkedInPostId ''https://www.linkedin.com/posts/user/abc-123'' = Some ''abc-123''"
    using detect_and_extract [of "''https://www.linkedin.com/posts/user/abc-123''"]
      linkedin_sample_matches linkedin_sample_group linkedin_sample_no_other by auto
  moreover have "detectPlatform ''https://twitter.com/user/status/20'' = Twitter
        \<and> extractTwitterTweetId ''https://twitter.com/user/status/20'' = Some ''20''"
    using detect_and_extract [of "''https://twitter.com/user/status/20''"]
      tweet_matches tweet_group tweet_no_other by auto
  ultimately show ?thesis
    using watch_matches short_matches instagram_sample_matches tiktok_sample_matches linkedin_sample_matches tweet_matches
    by blast
qed

text \<open>
  C7 as the specification states it fails: a URL that matches the pattern of Instagram
  and carries a YouTube link in its query is detected as YouTube.
\<close>

theorem instagram_link_detected_as_youtube:
  "any_test instagram_patterns ''https://www.instagram.com/p/abc/?u=youtu.be/dQw4w9WgXcQ''
   \<and> detectPlatform ''https://www.instagram.com/p/abc/?u=youtu.be/dQw4w9WgXcQ'' = Youtube
   \<and> detectPlatform ''https://www.instagram.com/p/abc/?u=youtu.be/dQw4w9WgXcQ'' \<noteq> Instagram"
proof -
  from shared_youtube
  have "detectPlatform ''https://www.instagram.com/p/abc/?u=youtu.be/dQw4w9WgXcQ'' = Youtube"
    by (simp add: detect_youtube)
  with shared_instagram show ?thesis by simp
qed

text \<open>
  C8. \<open>normalizeUrl\<close> is idempotent, for every string and every \<open>URL\<close> class that
  satisfies \<open>url_laws\<close>.
\<close>

theorem normalizeUrl_idempotent:
  assumes "url_laws api"
  shows "normalizeUrl api (normalizeUrl api u) = normalizeUrl api u"
proof (cases "URL_new api (add_protocol u)")
  case None
  then have n: "normalizeUrl api u = add_protocol u" by (simp add: normalizeUrl_def)
  have "add_protocol (add_protocol u) = add_protocol u"
    by (rule add_protocol_prefixed) (rule http_prefixed_add_protocol)
  with None n show ?thesis by (simp add: normalizeUrl_def)
next
  case (Some x)
  define y where "y = delete_all api trackingParams x"
  from Some have n: "normalizeUrl api u = toString api y" by (simp add: normalizeUrl_def y_def)
  from assms Some have "http_prefixed (toString api x)"
    unfolding url_laws_def using http_prefixed_add_protocol [of u] by blast
  then have "http_prefixed (toString api y)"
    unfolding y_def by (simp add: delete_all_prefixed [OF assms])
  then have a: "add_protocol (toString api y) = toString api y" by (rule add_protocol_prefixed)
  from assms have p: "URL_new api (toString api y) = Some y" unfolding url_laws_def by blast
  have "delete_all api trackingParams y = y"
    unfolding y_def by (rule delete_all_absorbed [OF assms]) simp
  with a p have "normalizeUrl api (toString api y) = toString api y"
    by (simp add: normalizeUrl_def)
  with n show ?thesis by simp
qed

text \<open>
  C8 at \<open>www.example.com/post?ref=home\<close>: the sample \<open>URL\<close> class satisfies the laws.
\<close>

theorem normalizeUrl_idempotent_witness:
  "url_laws sample_api
   \<and> normalizeUrl sample_api ''www.example.com/post?ref=home'' = ''https://www.example.com/post''
   \<and> normalizeUrl sample_api (normalizeUrl sample_api ''www.example.com/post?ref=home'')
       = normalizeUrl sample_api ''www.example.com/post?ref=home''"
proof -
  have n: "normalizeUrl sample_api ''www.example.com/post?ref=home'' = ''https://www.example.com/post''"
    by (simp add: normalizeUrl_def add_protocol_def sample_api_def sample_parse_def sample_href_def
          delete_all_def trackingParams_def)
  from normalizeUrl_idempotent [OF sample_api_laws, of "''www.example.com/post?ref=home''"] n
    sample_api_laws
  show ?thesis by simp
qed

text \<open>
  C9. Every record that \<open>YouTubeParser.extractMetadata\<close>, \<open>GenericParser.extractMetadata\<close>
  or \<open>EmbedService.extractMetadata\<close> returns, and the record of either \<open>catch\<close> block,
  has its type, its platform and its URL defined.
\<close>

theorem required_fields_present:
  "(fst (YouTubeParser_extractMetadata u w) = Inr m \<longrightarrow> has_required m)
   \<and> has_required (youtube_minimal v u)
   \<and> (fst (GenericParser_extractMetadata api u w) = Inr m \<longrightarrow> has_required m)
   \<and> has_required (generic_minimal api u)
   \<and> (fst (EmbedService_extractMetadata api (service_parsers api) u w) = Inr m \<longrightarrow> has_required m)
   \<and> (has_required m \<longrightarrow> md_type m \<noteq> None \<and> md_platform m \<noteq> None \<and> md_url m \<noteq> None)"
  using required_youtube [of u w m] required_generic [of api u w m] required_service [of api u w m]
  by (auto simp: has_required_def youtube_minimal_def generic_minimal_def no_metadata_def)

text \<open>
  C9 with no network, at a YouTube link and at a page.
\<close>

theorem required_fields_present_witness:
  "(\<exists>m. fst (YouTubeParser_extractMetadata ''https://youtu.be/dQw4w9WgXcQ'' offline) = Inr m
        \<and> md_type m \<noteq> None \<and> md_platform m \<noteq> None \<and> md_url m \<noteq> None)
   \<and> (\<exists>m. fst (GenericParser_extractMetadata sample_api ''https://www.example.com/post'' offline) = Inr m
        \<and> md_type m \<noteq> None \<and> md_platform m \<noteq> None \<and> md_url m \<noteq> None)
   \<and> (\<exists>m. fst (EmbedService_extractMetadata sample_api (service_parsers sample_api)
                ''https://www.example.com/post'' offline) = Inr m
        \<and> md_type m \<noteq> None \<and> md_platform m \<noteq> None \<and> md_url m \<noteq> None)"
proof (intro conjI)
  from short_link_Inr [of offline] obtain m where
    m: "fst (YouTubeParser_extractMetadata ''https://youtu.be/dQw4w9WgXcQ'' offline) = Inr m" by blast
  with required_fields_present [of "''https://youtu.be/dQw4w9WgXcQ''" offline m]
  show "\<exists>m. fst (YouTubeParser_extractMetadata ''https://youtu.be/dQw4w9WgXcQ'' offline) = Inr m
        \<and> md_type m \<noteq> None \<and> md_platform m \<noteq> None \<and> md_url m \<noteq> None"
    by blast
next
  from GenericParser_Inr [of sample_api "''https://www.example.com/post''" offline] obtain m where
    m: "fst (GenericParser_extractMetadata sample_api ''https://www.example.com/post'' offline) = Inr m"
    by blast
  with required_fields_present [where api = sample_api and u = "''https://www.example.com/post''"
      and w = offline and m = m]
  show "\<exists>m. fst (GenericParser_extractMetadata sample_api ''https://www.example.com/post'' offline) = Inr m
        \<and> md_type m \<noteq> None \<and> md_platform m \<noteq> None \<and> md_url m \<noteq> None"
    by blast
next
  from service_post_Inr [of offline] obtain m where
    m: "fst (EmbedService_extractMetadata sample_api (service_parsers sample_api)
                ''https://www.example.com/post'' offline) = Inr m"
    by blast
  with required_fields_present [where api = sample_api and u = "''https://www.example.com/post''"
      and w = offline and m = m]
  show "\<exists>m. fst (EmbedService_extractMetadata sample_api (service_parsers sample_api)
                ''https://www.example.com/post'' offline) = Inr m
        \<and> md_type m \<noteq> None \<and> md_platform m \<noteq> None \<and> md_url m \<noteq> None"
    by blast
qed

text \<open>
  C10. If \<open>YouTubeParser.canHandle\<close> accepts \<open>u\<close>, then \<open>extractYouTubeVideoId\<close> finds an
  identifier, of 11 characters, and \<open>YouTubeParser.extractMetadata\<close> returns a record: it
  does not throw \<open>Invalid YouTube URL\<close>.
\<close>

theorem youtube_id_always_found:
  assumes "canHandle YouTubeParser u"
  shows "(\<exists>v. extractYouTubeVideoId u = Some v \<and> length v = 11)
       \<and> (\<exists>m. fst (YouTubeParser_extractMetadata u w) = Inr m)"
proof -
  from assms have "any_test youtube_patterns u" by (simp add: YouTubeParser_def detect_youtube)
  from youtube_id [OF this] obtain v where v: "extractYouTubeVideoId u = Some v" "length v = 11"
    by blast
  then have "v \<noteq> []" by auto
  with v have "\<exists>m. fst (YouTubeParser_extractMetadata u w) = Inr m"
    by (simp add: YouTubeParser_extractMetadata_def split: prod.splits option.splits)
  with v show ?thesis by blast
qed

text \<open>
  C10 at \<open>https://youtu.be/dQw4w9WgXcQ\<close>.
\<close>

theorem youtube_id_always_found_witness:
  "canHandle YouTubeParser ''https://youtu.be/dQw4w9WgXcQ''
   \<and> extractYouTubeVideoId ''https://youtu.be/dQw4w9WgXcQ'' = Some ''dQw4w9WgXcQ''
   \<and> (\<exists>m. fst (YouTubeParser_extractMetadata ''https://youtu.be/dQw4w9WgXcQ'' offline) = Inr m)"
proof -
  have h: "canHandle YouTubeParser ''https://youtu.be/dQw4w9WgXcQ''"
    using short_matches by (simp add: YouTubeParser_def detect_youtube)
  from youtube_id_always_found [OF h, of offline] obtain v where
    v: "extractYouTubeVideoId ''https://youtu.be/dQw4w9WgXcQ'' = Some v"
    and m: "\<exists>m. fst (YouTubeParser_extractMetadata ''https://youtu.be/dQw4w9WgXcQ'' offline) = Inr m"
    by blast
  from youtube_id [OF short_matches] short_group v
  have "extractYouTubeVideoId ''https://youtu.be/dQw4w9WgXcQ'' = Some ''dQw4w9WgXcQ''" by auto
  with h m show ?thesis by blast
qed

end
